theory Spec2Isabelle
  imports Main
begin

section \<open>The environment of \<open>datamanipy/file.py\<close>\<close>

text \<open>
  The module \<open>file.py\<close> is glue code over the Python standard library
  (\<open>os.path\<close>, \<open>os.remove\<close>, \<open>open\<close>, \<open>print\<close>), \<open>pyreadstat\<close> and
  \<open>pandas\<close>. This section models what the module calls, on a POSIX platform
  (separator \<open>/\<close>); the next section is the module itself.
\<close>

subsection \<open>\<open>posixpath\<close>: split, splitext, join, normpath\<close>

text \<open>\<open>s.rfind(c)\<close>: the highest index of \<open>c\<close> in \<open>s\<close>, or \<open>-1\<close>.\<close>

definition rfind :: "char \<Rightarrow> string \<Rightarrow> int" where
  "rfind c s = int (length (dropWhile (\<lambda>x. x \<noteq> c) (rev s))) - 1"

text \<open>\<open>s.rstrip(c)\<close>.\<close>

definition rstrip :: "char \<Rightarrow> string \<Rightarrow> string" where
  "rstrip c s = rev (dropWhile (\<lambda>x. x = c) (rev s))"

text \<open>
  \<^verbatim>\<open>
  def split(p):
      i = p.rfind(sep) + 1
      head, tail = p[:i], p[i:]
      if head and head != sep*len(head):
          head = head.rstrip(sep)
      return head, tail
  \<close>
\<close>

definition os_path_split :: "string \<Rightarrow> string \<times> string" where
  "os_path_split p =
     (let i = nat (rfind CHR ''/'' p + 1);
          head = take i p;
          tail = drop i p
      in (if head \<noteq> [] \<and> head \<noteq> replicate (length head) CHR ''/''
          then rstrip CHR ''/'' head else head, tail))"

text \<open>
  \<^verbatim>\<open>
  def splitext(p):                       # genericpath._splitext(p, '/', None, '.')
      sepIndex = p.rfind(sep)
      dotIndex = p.rfind(extsep)
      if dotIndex > sepIndex:
          filenameIndex = sepIndex + 1   # skip all leading dots
          while filenameIndex < dotIndex:
              if p[filenameIndex:filenameIndex+1] != extsep:
                  return p[:dotIndex], p[dotIndex:]
              filenameIndex += 1
      return p, p[:0]
  \<close>
  The loop looks for a character other than the dot in \<open>p[sepIndex+1:dotIndex]\<close>.
\<close>

definition os_path_splitext :: "string \<Rightarrow> string \<times> string" where
  "os_path_splitext p =
     (let sepIndex = rfind CHR ''/'' p;
          dotIndex = rfind CHR ''.'' p
      in if dotIndex > sepIndex \<and>
            list_ex (\<lambda>c. c \<noteq> CHR ''.'')
              (take (nat dotIndex - nat (sepIndex + 1)) (drop (nat (sepIndex + 1)) p))
         then (take (nat dotIndex) p, drop (nat dotIndex) p)
         else (p, []))"

text \<open>
  \<open>os.path.join(a, b)\<close> with one component \<open>b\<close>:
  \<^verbatim>\<open>
      if b.startswith(sep):                 path = b
      elif not path or path.endswith(sep):  path += b
      else:                                 path += sep + b
  \<close>
\<close>

definition os_path_join :: "string \<Rightarrow> string \<Rightarrow> string" where
  "os_path_join a b =
     (if b \<noteq> [] \<and> hd b = CHR ''/'' then b
      else if a = [] \<or> last a = CHR ''/'' then a @ b
      else a @ ''/'' @ b)"

text \<open>\<open>s.split(sep)\<close>: the components between the separators (never an empty list).\<close>

fun split_sep :: "string \<Rightarrow> string list" where
  "split_sep [] = [[]]"
| "split_sep (c # cs) =
     (if c = CHR ''/'' then [] # split_sep cs
      else (case split_sep cs of [] \<Rightarrow> [[c]] | x # xs \<Rightarrow> (c # x) # xs))"

text \<open>\<open>sep.join(comps)\<close>.\<close>

fun join_sep :: "string list \<Rightarrow> string" where
  "join_sep [] = []"
| "join_sep [x] = x"
| "join_sep (x # y # ys) = x @ ''/'' @ join_sep (y # ys)"

text \<open>
  \<^verbatim>\<open>
  def normpath(path):
      if path == '': return '.'
      initial_slashes = path.startswith('/')
      # POSIX allows one or two initial slashes, but treats three or more as single slash.
      if initial_slashes and path.startswith('//') and not path.startswith('///'):
          initial_slashes = 2
      comps = path.split('/')
      new_comps = []
      for comp in comps:
          if comp in ('', '.'): continue
          if (comp != '..' or (not initial_slashes and not new_comps) or
               (new_comps and new_comps[-1] == '..')):
              new_comps.append(comp)
          elif new_comps:
              new_comps.pop()
      path = '/'.join(new_comps)
      if initial_slashes: path = '/'*initial_slashes + path
      return path or '.'
  \<close>
\<close>

definition initial_slashes :: "string \<Rightarrow> nat" where
  "initial_slashes p =
     (if take 1 p = ''/'' then
        (if take 2 p = ''//'' \<and> take 3 p \<noteq> ''///'' then 2 else 1)
      else 0)"

definition norm_step :: "nat \<Rightarrow> string \<Rightarrow> string list \<Rightarrow> string list" where
  "norm_step ini cmp new_comps =
     (if cmp = [] \<or> cmp = ''.'' then new_comps
      else if cmp \<noteq> ''..'' \<or> (ini = 0 \<and> new_comps = []) \<or>
              (new_comps \<noteq> [] \<and> last new_comps = ''..'')
           then new_comps @ [cmp]
      else if new_comps \<noteq> [] then butlast new_comps
      else new_comps)"

definition normpath :: "string \<Rightarrow> string" where
  "normpath p =
     (if p = [] then ''.''
      else let ini = initial_slashes p;
               new_comps = fold (norm_step ini) (split_sep p) [];
               q = replicate ini CHR ''/'' @ join_sep new_comps
           in if q = [] then ''.'' else q)"

subsection \<open>The file system, the console and the built-in calls\<close>

text \<open>
  A SAS dataset as it is stored: column names and rows of cells. A date cell holds a
  day count; the other cells are numbers and byte strings.
\<close>

datatype cell = NumC int | StrC string | DateC int

record sas_dataset =
  col_names :: "string list"
  sas_rows :: "cell list list"

text \<open>
  Python values in a data frame. \<open>PyStr enc b\<close> is the text obtained by decoding the
  bytes \<open>b\<close> under the encoding \<open>enc\<close> (\<open>None\<close>: the library's default);
  \<open>PyDate\<close> is a \<open>datetime.date\<close> and \<open>PyTimestamp\<close> a pandas
  \<open>datetime64\<close> value.
\<close>

datatype pyval =
    PyNum int
  | PyStr "string option" string
  | PyDate int
  | PyTimestamp int
  | PyInt nat

text \<open>What the reader and \<open>pandas\<close> exchange with the module.\<close>

record dataframe =
  columns :: "pyval list"
  rows :: "pyval list list"

record metadata =
  number_rows :: nat
  column_names :: "pyval list"

text \<open>
  What a file holds: the image of a SAS dataset, or lines of delimited text. A text
  line records the encoding it was written with, its separator and its fields.
\<close>

datatype item =
    Image sas_dataset
  | Line "string option" char "pyval list"

datatype node =
    Dir
  | Reg (readable: bool) (writable: bool) (items: "item list")

datatype open_mode = ModeR | ModeW | ModeX | ModeA

text \<open>
  The calls the module makes that act on the outside, with their arguments:
  \<open>open\<close>, the close at the end of a \<open>with\<close> block, \<open>os.remove\<close>, \<open>print\<close> and
  \<open>df.to_csv(path, header=, encoding=, mode=, sep=, index=)\<close>.
\<close>

datatype event =
    EvOpen string open_mode
  | EvClose string
  | EvRemove string
  | EvPrint string
  | EvToCsv string dataframe bool "string option" open_mode char bool

datatype py_error =
    FileNotFoundError
  | PermissionError
  | IsADirectoryError
  | NotADirectoryError
  | FileExistsError
  | LookupError
  | TypeError string
  | PyreadstatError
  | ReadstatError

text \<open>
  What the platform decides and the module cannot change: the directories the process
  may add an entry to; the entries it may unlink (not those of a directory it cannot
  write, of a sticky directory that belong to someone else, or of a file held in use);
  the read and write permission a file gets when \<open>open\<close> creates it (the creation mask);
  the encoding names the reader's converter knows, those Python's codecs know, and the
  byte strings that decode under an encoding (\<open>None\<close>: the encoding the file declares).
\<close>

record platform =
  may_create :: "string \<Rightarrow> bool"
  may_unlink :: "string \<Rightarrow> bool"
  new_readable :: bool
  new_writable :: bool
  reader_codec :: "string \<Rightarrow> bool"
  writer_codec :: "string \<Rightarrow> bool"
  decodes :: "string option \<Rightarrow> string \<Rightarrow> bool"

text \<open>
  A platform without restrictions: every directory can be written, new files can be
  read and written, \<open>latin1\<close> and \<open>utf-8\<close> are the known encodings, and only ASCII bytes
  decode under \<open>utf-8\<close>.
\<close>

definition usual :: platform where
  "usual =
     \<lparr>may_create = (\<lambda>d. True), may_unlink = (\<lambda>p. True),
      new_readable = True, new_writable = True,
      reader_codec = (\<lambda>e. e = ''latin1'' \<or> e = ''utf-8''),
      writer_codec = (\<lambda>e. e = ''latin1'' \<or> e = ''utf-8''),
      decodes = (\<lambda>enc b. if enc = Some ''utf-8''
                           then list_all (\<lambda>c. of_char c < (128::nat)) b else True)\<rparr>"

text \<open>
  The world: the file system (distinct path strings name distinct files), the paths of
  the file objects that are open, the log of the calls made so far, in order, and the
  platform.
\<close>

record world =
  fs :: "string \<rightharpoonup> node"
  opened :: "string list"
  log :: "event list"
  platform :: platform

type_synonym 'a io = "world \<Rightarrow> (py_error + 'a) \<times> world"

definition emit :: "event \<Rightarrow> world \<Rightarrow> world" where
  "emit e w = w\<lparr>log := log w @ [e]\<rparr>"

text \<open>The lines printed so far, and the \<open>to_csv\<close> calls made so far.\<close>

fun printed :: "event list \<Rightarrow> string list" where
  "printed [] = []"
| "printed (EvPrint s # es) = s # printed es"
| "printed (_ # es) = printed es"

fun writes :: "event list \<Rightarrow> event list" where
  "writes [] = []"
| "writes (EvToCsv p df h enc m sep ix # es) = EvToCsv p df h enc m sep ix # writes es"
| "writes (_ # es) = writes es"

text \<open>
  The directory that holds the entry of a path: \<open>os.path.dirname(p)\<close>, and the current
  directory \<open>.\<close> for a bare name.
\<close>

definition parent_of :: "string \<Rightarrow> string" where
  "parent_of p = (let d = fst (os_path_split p) in if d = [] then ''.'' else d)"

text \<open>
  Why a new entry cannot be made at an absent path: the parent directory is missing, is
  not a directory, or does not take new entries.
\<close>

definition new_entry :: "world \<Rightarrow> string \<Rightarrow> py_error option" where
  "new_entry w p =
     (case fs w (parent_of p) of
        None \<Rightarrow> Some FileNotFoundError
      | Some (Reg r wr its) \<Rightarrow> Some NotADirectoryError
      | Some Dir \<Rightarrow> if may_create (platform w) (parent_of p) then None else Some PermissionError)"

text \<open>The empty file \<open>open\<close> creates.\<close>

definition new_file :: "world \<Rightarrow> node" where
  "new_file w = Reg (new_readable (platform w)) (new_writable (platform w)) []"

text \<open>What \<open>open(path, mode)\<close> does to the file system, or the \<open>OSError\<close> it raises.\<close>

definition open_effect :: "string \<Rightarrow> open_mode \<Rightarrow> world \<Rightarrow> py_error + (string \<rightharpoonup> node)" where
  "open_effect p m w =
     (case m of
        ModeR \<Rightarrow>
          (case fs w p of
             None \<Rightarrow> Inl FileNotFoundError
           | Some Dir \<Rightarrow> Inl IsADirectoryError
           | Some (Reg r _ _) \<Rightarrow> if r then Inr (fs w) else Inl PermissionError)
      | ModeX \<Rightarrow>
          (case fs w p of
             None \<Rightarrow>
               (case new_entry w p of
                  Some e \<Rightarrow> Inl e
                | None \<Rightarrow> Inr ((fs w)(p \<mapsto> new_file w)))
           | Some _ \<Rightarrow> Inl FileExistsError)
      | ModeW \<Rightarrow>
          (case fs w p of
             None \<Rightarrow>
               (case new_entry w p of
                  Some e \<Rightarrow> Inl e
                | None \<Rightarrow> Inr ((fs w)(p \<mapsto> new_file w)))
           | Some Dir \<Rightarrow> Inl IsADirectoryError
           | Some (Reg r wr _) \<Rightarrow>
               if wr then Inr ((fs w)(p \<mapsto> Reg r wr [])) else Inl PermissionError)
      | ModeA \<Rightarrow>
          (case fs w p of
             None \<Rightarrow>
               (case new_entry w p of
                  Some e \<Rightarrow> Inl e
                | None \<Rightarrow> Inr ((fs w)(p \<mapsto> new_file w)))
           | Some Dir \<Rightarrow> Inl IsADirectoryError
           | Some (Reg r wr _) \<Rightarrow> if wr then Inr (fs w) else Inl PermissionError))"

datatype handle = Handle string open_mode

definition builtin_open :: "string \<Rightarrow> open_mode \<Rightarrow> handle io" where
  "builtin_open p m w =
     (let w1 = emit (EvOpen p m) w
      in case open_effect p m w1 of
           Inl e \<Rightarrow> (Inl e, w1)
         | Inr f' \<Rightarrow> (Inr (Handle p m), w1\<lparr>fs := f', opened := p # opened w1\<rparr>))"

fun close_handle :: "handle \<Rightarrow> world \<Rightarrow> world" where
  "close_handle (Handle p m) w = (emit (EvClose p) w)\<lparr>opened := remove1 p (opened w)\<rparr>"

text \<open>
  \<open>os.remove(path)\<close>: \<open>FileNotFoundError\<close> when nothing is at the path,
  \<open>IsADirectoryError\<close> for a directory, \<open>PermissionError\<close> when the platform does not
  let the entry go; otherwise the file is gone.
\<close>

definition os_remove :: "string \<Rightarrow> unit io" where
  "os_remove p w =
     (let w1 = emit (EvRemove p) w
      in case fs w1 p of
           None \<Rightarrow> (Inl FileNotFoundError, w1)
         | Some Dir \<Rightarrow> (Inl IsADirectoryError, w1)
         | Some (Reg _ _ _) \<Rightarrow>
             if may_unlink (platform w1) p then (Inr (), w1\<lparr>fs := (fs w1)(p := None)\<rparr>)
             else (Inl PermissionError, w1))"

definition print :: "string \<Rightarrow> world \<Rightarrow> world" where
  "print s w = emit (EvPrint s) w"

subsection \<open>\<open>pyreadstat\<close> and \<open>pandas\<close>\<close>

text \<open>
  How the reader hands a stored cell to Python. With \<open>dates_as_pandas_datetime\<close> a
  date becomes a pandas \<open>datetime64\<close> value, without it a \<open>datetime.date\<close>.
\<close>

fun to_python :: "string option \<Rightarrow> bool \<Rightarrow> cell \<Rightarrow> pyval" where
  "to_python enc dates (NumC n) = PyNum n"
| "to_python enc dates (StrC b) = PyStr enc b"
| "to_python enc dates (DateC d) = (if dates then PyTimestamp d else PyDate d)"

text \<open>\<open>row_limit\<close>: 0 means no limit.\<close>

definition limit_rows :: "nat \<Rightarrow> 'a list \<Rightarrow> 'a list" where
  "limit_rows n xs = (if n = 0 then xs else take n xs)"

text \<open>
  The data frame the reader builds from rows of a dataset, and the metadata;
  \<open>number_rows\<close> is the row count of the file for a metadata-only read and the number
  of rows read otherwise.
\<close>

definition frame :: "sas_dataset \<Rightarrow> string option \<Rightarrow> bool \<Rightarrow> cell list list \<Rightarrow> dataframe" where
  "frame d enc dates rs =
     \<lparr>columns = map (PyStr enc) (col_names d), rows = map (map (to_python enc dates)) rs\<rparr>"

definition meta_of :: "sas_dataset \<Rightarrow> string option \<Rightarrow> nat \<Rightarrow> metadata" where
  "meta_of d enc n =
     \<lparr>number_rows = n, column_names = map (PyStr enc) (col_names d)\<rparr>"

text \<open>
  The reader converts the column names and the string cells of the rows it reads. It
  fails when its converter does not know the encoding, or when one of these byte strings
  does not decode under it.
\<close>

definition codec_known :: "platform \<Rightarrow> string option \<Rightarrow> bool" where
  "codec_known pf enc = (case enc of None \<Rightarrow> True | Some e \<Rightarrow> reader_codec pf e)"

fun cell_decodes :: "platform \<Rightarrow> string option \<Rightarrow> cell \<Rightarrow> bool" where
  "cell_decodes pf enc (StrC b) = decodes pf enc b"
| "cell_decodes pf enc c = True"

definition converts :: "platform \<Rightarrow> string option \<Rightarrow> sas_dataset \<Rightarrow> cell list list \<Rightarrow> bool" where
  "converts pf enc d rs =
     (codec_known pf enc \<and> list_all (decodes pf enc) (col_names d) \<and>
      list_all (list_all (cell_decodes pf enc)) rs)"

text \<open>
  \<open>pyreadstat.read_sas7bdat(filename_path, metadataonly=False,
  dates_as_pandas_datetime=False, encoding=None, row_limit=0, row_offset=0)\<close>: the data
  frame and the metadata of the dataset stored at the path, or the reader's error:
  \<open>PyreadstatError\<close> when the path is not an existing file, \<open>ReadstatError\<close> when the
  file cannot be opened, is not a dataset or cannot be converted. A file is a dataset
  when it holds exactly one dataset image.
\<close>

definition read_sas7bdat ::
  "world \<Rightarrow> string \<Rightarrow> bool \<Rightarrow> bool \<Rightarrow> string option \<Rightarrow> nat \<Rightarrow> nat \<Rightarrow>
   py_error + dataframe \<times> metadata" where
  "read_sas7bdat w p metadataonly dates enc row_limit row_offset =
     (case fs w p of
        None \<Rightarrow> Inl PyreadstatError
      | Some Dir \<Rightarrow> Inl PyreadstatError
      | Some (Reg r wr its) \<Rightarrow>
          if \<not> r then Inl ReadstatError
          else (case its of
                  [Image d] \<Rightarrow>
                    (let rs = (if metadataonly then []
                               else limit_rows row_limit (drop row_offset (sas_rows d)))
                     in if converts (platform w) enc d rs
                        then Inr (frame d enc dates rs,
                                  meta_of d enc
                                    (if metadataonly then length (sas_rows d) else length rs))
                        else Inl ReadstatError)
                | _ \<Rightarrow> Inl ReadstatError))"

text \<open>
  \<open>pyreadstat.read_file_in_chunks\<close> is a generator; the \<open>for\<close> loop that consumes
  it runs its body at every \<open>yield\<close>. The body is the parameter \<open>body\<close>: it gets the
  chunk, the metadata and the loop's own state. The result is \<open>None\<close> when the loop
  never ends.
  \<^verbatim>\<open>
      df = [0]
      while len(df):
          if limit and (offset >= limit):
              break
          df, meta = read_function(file_path, row_offset=offset, row_limit=chunksize, **kwargs)
          if len(df):
              yield df, meta
              offset += chunksize
  \<close>
\<close>

partial_function (option) chunk_loop ::
  "(dataframe \<Rightarrow> metadata \<Rightarrow> 's \<Rightarrow> 's io) \<Rightarrow> string \<Rightarrow> string option \<Rightarrow> nat \<Rightarrow> nat \<Rightarrow> nat \<Rightarrow>
   's \<Rightarrow> world \<Rightarrow> ((py_error + 's) \<times> world) option" where
  "chunk_loop body p enc chunksize limit offset s w =
     (if limit \<noteq> 0 \<and> offset \<ge> limit then Some (Inr s, w)
      else case read_sas7bdat w p False False enc chunksize offset of
             Inl e \<Rightarrow> Some (Inl e, w)
           | Inr (df, meta) \<Rightarrow>
               if rows df = [] then Some (Inr s, w)
               else (case body df meta s w of
                       (Inl e, w') \<Rightarrow> Some (Inl e, w')
                     | (Inr s', w') \<Rightarrow>
                         chunk_loop body p enc chunksize limit (offset + chunksize) s' w'))"

declare chunk_loop.simps [code]

text \<open>
  \<^verbatim>\<open>
  def read_file_in_chunks(read_function, file_path, chunksize=100000, offset=0, limit=0,
                          **kwargs):
      _, meta = read_function(file_path, metadataonly=True)
      numrows = meta.number_rows
      if numrows:
          if not limit: limit = numrows
          else:         limit = min(offset+limit, numrows)
      else:
          if limit:     limit = offset + limit
      ...
  \<close>
\<close>

definition read_file_in_chunks ::
  "(dataframe \<Rightarrow> metadata \<Rightarrow> 's \<Rightarrow> 's io) \<Rightarrow> string \<Rightarrow> nat \<Rightarrow> nat \<Rightarrow> nat \<Rightarrow> string option \<Rightarrow>
   's \<Rightarrow> world \<Rightarrow> ((py_error + 's) \<times> world) option" where
  "read_file_in_chunks body p chunksize offset limit enc s w =
     (case read_sas7bdat w p True False None 0 0 of
        Inl e \<Rightarrow> Some (Inl e, w)
      | Inr (df0, meta) \<Rightarrow>
          let numrows = number_rows meta;
              lim = (if numrows \<noteq> 0
                     then (if limit = 0 then numrows else min (offset + limit) numrows)
                     else (if limit \<noteq> 0 then offset + limit else limit))
          in chunk_loop body p enc chunksize lim offset s w)"

text \<open>
  The lines \<open>DataFrame.to_csv\<close> writes: the header line when asked for, then one line
  per row, each led by the row's index when \<open>index\<close> is set.
\<close>

definition csv_lines :: "dataframe \<Rightarrow> bool \<Rightarrow> string option \<Rightarrow> char \<Rightarrow> bool \<Rightarrow> item list" where
  "csv_lines df header enc sep index =
     (if header then [Line enc sep ((if index then [PyStr None []] else []) @ columns df)]
      else []) @
     map (\<lambda>(i, r). Line enc sep ((if index then [PyInt i] else []) @ r))
       (enumerate 0 (rows df))"

text \<open>
  \<open>df.to_csv(path, header=, encoding=, mode=, sep=, index=)\<close> for the writing modes:
  looks the encoding up (\<open>LookupError\<close> when Python does not know it), opens the path
  in the mode, writes the lines after what the file holds then, and closes it.
\<close>

definition DataFrame_to_csv ::
  "dataframe \<Rightarrow> string \<Rightarrow> bool \<Rightarrow> string option \<Rightarrow> open_mode \<Rightarrow> char \<Rightarrow> bool \<Rightarrow> unit io" where
  "DataFrame_to_csv df p header enc mode sep index w =
     (let w1 = emit (EvToCsv p df header enc mode sep index) w
      in if (case enc of None \<Rightarrow> False | Some e \<Rightarrow> \<not> writer_codec (platform w1) e)
         then (Inl LookupError, w1)
         else (case open_effect p mode w1 of
                 Inl e \<Rightarrow> (Inl e, w1)
               | Inr f' \<Rightarrow>
                   (case f' p of
                      Some (Reg r wr its) \<Rightarrow>
                        (Inr (), w1\<lparr>fs := f'(p \<mapsto>
                           Reg r wr (its @ csv_lines df header enc sep index))\<rparr>)
                    | _ \<Rightarrow> (Inr (), w1\<lparr>fs := f'\<rparr>))))"

section \<open>\<open>class File\<close>\<close>

text \<open>The attribute \<open>file\<close> is written \<open>file'\<close>.\<close>

record file_obj =
  path :: string
  encoding :: "string option"
  directory :: string
  file' :: string
  name :: string
  extension :: string

text \<open>
  \<open>File.open\<close> passes its arguments to the built-in \<open>open\<close>; of these the mode
  decides what happens to the file system.
\<close>

definition File_open :: "file_obj \<Rightarrow> open_mode \<Rightarrow> handle io" where
  "File_open self m w = builtin_open (path self) m w"

text \<open>The attributes \<open>File.__init__\<close> sets before the probe.\<close>

definition File_attrs :: "string \<Rightarrow> string option \<Rightarrow> file_obj" where
  "File_attrs p enc =
     (let (d, f) = os_path_split p;
          (n, e) = os_path_splitext f
      in \<lparr>path = p, encoding = enc, directory = d, file' = f, name = n, extension = e\<rparr>)"

text \<open>
  \<^verbatim>\<open>
  def __init__(self, path, encoding=None):
      ...
      with self.open() as f:
          pass
  \<close>
\<close>

definition File_init :: "string \<Rightarrow> string option \<Rightarrow> file_obj io" where
  "File_init p enc w =
     (let self = File_attrs p enc
      in case File_open self ModeR w of
           (Inl e, w1) \<Rightarrow> (Inl e, w1)
         | (Inr h, w1) \<Rightarrow> (Inr self, close_handle h w1))"

definition File_remove :: "file_obj \<Rightarrow> unit io" where
  "File_remove self w = os_remove (path self) w"

text \<open>
  \<^verbatim>\<open>
  def create(self):
      with self.open(mode='x') as f:
          print(f'File {self.file} created in {self.directory}')
  \<close>
\<close>

definition File_create :: "file_obj \<Rightarrow> unit io" where
  "File_create self w =
     (case File_open self ModeX w of
        (Inl e, w1) \<Rightarrow> (Inl e, w1)
      | (Inr h, w1) \<Rightarrow>
          (Inr (),
           close_handle h
             (print (''File '' @ file' self @ '' created in '' @ directory self) w1)))"

section \<open>\<open>class Sas(File)\<close>\<close>

text \<open>
  \<^verbatim>\<open>
  def __init__(self, path, encoding='latin1'):
      super(Sas, self).__init__(path, encoding)
      if self.extension != '.sas7bdat':
          raise TypeError(f'{self.file} is not a sas7bdat file')
  \<close>
\<close>

definition Sas_init :: "string \<Rightarrow> string option \<Rightarrow> file_obj io" where
  "Sas_init p enc w =
     (case File_init p enc w of
        (Inl e, w1) \<Rightarrow> (Inl e, w1)
      | (Inr self, w1) \<Rightarrow>
          if extension self \<noteq> ''.sas7bdat''
          then (Inl (TypeError (file' self @ '' is not a sas7bdat file'')), w1)
          else (Inr self, w1))"

text \<open>
  \<^verbatim>\<open>
  def read(self, row_limit=0):
      return pyreadstat.read_sas7bdat(self.path, dates_as_pandas_datetime=True,
                                      encoding=self.encoding, row_limit=row_limit)
  \<close>
\<close>

definition Sas_read :: "file_obj \<Rightarrow> nat \<Rightarrow> world \<Rightarrow> py_error + dataframe \<times> metadata" where
  "Sas_read self row_limit w =
     read_sas7bdat w (path self) False True (encoding self) row_limit 0"

text \<open>
  \<^verbatim>\<open>
  def read_in_chunks(self, row_limit=0, chunksize=10000):
      return pyreadstat.read_file_in_chunks(read_function=pyreadstat.read_sas7bdat,
          file_path=self.path, limit=row_limit, chunksize=chunksize, encoding=self.encoding)
  \<close>
\<close>

definition Sas_read_in_chunks ::
  "(dataframe \<Rightarrow> metadata \<Rightarrow> 's \<Rightarrow> 's io) \<Rightarrow> file_obj \<Rightarrow> nat \<Rightarrow> nat \<Rightarrow>
   's \<Rightarrow> world \<Rightarrow> ((py_error + 's) \<times> world) option" where
  "Sas_read_in_chunks body self row_limit chunksize s w =
     read_file_in_chunks body (path self) chunksize 0 row_limit (encoding self) s w"

text \<open>A loop body that only collects the chunks, in the order they are yielded.\<close>

definition collect :: "dataframe \<Rightarrow> metadata \<Rightarrow> dataframe list \<Rightarrow> dataframe list io" where
  "collect df meta acc w = (Inr (acc @ [df]), w)"

text \<open>A list cut into pieces of \<open>k\<close> elements, the last one possibly shorter.\<close>

fun chunks_of :: "nat \<Rightarrow> 'a list \<Rightarrow> 'a list list" where
  "chunks_of k xs =
     (if k = 0 \<or> xs = [] then [] else take k xs # chunks_of k (drop k xs))"

text \<open>
  \<^verbatim>\<open>
  def to_csv(self):
      csv_file = self.name + ".csv"
      csv_path = os.path.join(self.directory, self.name + '.csv')
      try:
          os.remove(csv_path)
          print(f'Warning : csv file {csv_file} already existed and has been removed.')
      except:
          pass
      reader = self.read_in_chunks()
      header = True
      for df, _ in reader:
          df.to_csv(csv_path, header=header, encoding=self.encoding,
                    mode='a', sep=';', index=False)
          header = False
      print(f'Sas file {self.file} converted to csv file {csv_file}')
      return None
  \<close>
  The state of the loop is the variable \<open>header\<close>.
\<close>

definition csv_path :: "file_obj \<Rightarrow> string" where
  "csv_path self = os_path_join (directory self) (name self @ ''.csv'')"

definition to_csv_body :: "file_obj \<Rightarrow> dataframe \<Rightarrow> metadata \<Rightarrow> bool \<Rightarrow> bool io" where
  "to_csv_body self df meta header w =
     (case DataFrame_to_csv df (csv_path self) header (encoding self) ModeA CHR '';'' False w of
        (Inl e, w') \<Rightarrow> (Inl e, w')
      | (Inr u, w') \<Rightarrow> (Inr False, w'))"

definition to_csv_clean :: "file_obj \<Rightarrow> world \<Rightarrow> world" where
  "to_csv_clean self w =
     (case os_remove (csv_path self) w of
        (Inl e, w') \<Rightarrow> w'
      | (Inr u, w') \<Rightarrow>
          print (''Warning : csv file '' @ (name self @ ''.csv'') @
                 '' already existed and has been removed.'') w')"

definition Sas_to_csv :: "file_obj \<Rightarrow> world \<Rightarrow> ((py_error + unit) \<times> world) option" where
  "Sas_to_csv self w =
     (case Sas_read_in_chunks (to_csv_body self) self 0 10000 True (to_csv_clean self w) of
        None \<Rightarrow> None
      | Some (Inl e, w2) \<Rightarrow> Some (Inl e, w2)
      | Some (Inr header, w2) \<Rightarrow>
          Some (Inr (),
                print (''Sas file '' @ file' self @ '' converted to csv file '' @
                       (name self @ ''.csv'')) w2))"

section \<open>Notions used in the statements\<close>

text \<open>
  What a conversion with chunks of \<open>k\<close> rows writes for a dataset: the lines of each
  chunk in order, with the header line in the first chunk only, the semicolon as
  separator, no index column and the object's encoding.
\<close>

definition converted :: "file_obj \<Rightarrow> sas_dataset \<Rightarrow> nat \<Rightarrow> item list" where
  "converted self d k =
     concat (map (\<lambda>(i, c). csv_lines (frame d (encoding self) False c) (i = 0)
                    (encoding self) CHR '';'' False)
               (enumerate 0 (chunks_of k (sas_rows d))))"

text \<open>
  The chunks a conversion reads from a dataset, and the \<open>to_csv\<close> calls that write a
  list of chunks to a path: in order, in append mode, with the semicolon as separator,
  without index column, with the header in the first call only.
\<close>

definition chunk_frames :: "file_obj \<Rightarrow> sas_dataset \<Rightarrow> nat \<Rightarrow> dataframe list" where
  "chunk_frames self d k = map (frame d (encoding self) False) (chunks_of k (sas_rows d))"

fun write_events :: "string \<Rightarrow> string option \<Rightarrow> bool \<Rightarrow> dataframe list \<Rightarrow> event list" where
  "write_events p enc header [] = []"
| "write_events p enc header (df # dfs) =
     EvToCsv p df header enc ModeA CHR '';'' False # write_events p enc False dfs"

text \<open>The cells that \<open>dates_as_pandas_datetime\<close> changes.\<close>

fun is_date :: "cell \<Rightarrow> bool" where
  "is_date (DateC d) = True"
| "is_date c = False"

text \<open>
  A client of an object: a sequence of method calls, each run to its end with its
  exception, if any, caught. \<open>None\<close> when a call does not return. The methods of
  \<open>File\<close> are \<open>open\<close>, \<open>create\<close> and \<open>remove\<close>; \<open>Sas\<close> adds the others.
\<close>

datatype call =
    CallOpen open_mode
  | CallCreate
  | CallRemove
  | CallRead nat
  | CallReadInChunks nat nat
  | CallToCsv

fun file_call :: "call \<Rightarrow> bool" where
  "file_call (CallOpen m) = True"
| "file_call CallCreate = True"
| "file_call CallRemove = True"
| "file_call c = False"

fun run_call :: "file_obj \<Rightarrow> call \<Rightarrow> world \<Rightarrow> world option" where
  "run_call self (CallOpen m) w = Some (snd (File_open self m w))"
| "run_call self CallCreate w = Some (snd (File_create self w))"
| "run_call self CallRemove w = Some (snd (File_remove self w))"
| "run_call self (CallRead row_limit) w = Some w"
| "run_call self (CallReadInChunks row_limit chunksize) w =
     map_option snd (Sas_read_in_chunks collect self row_limit chunksize [] w)"
| "run_call self CallToCsv w = map_option snd (Sas_to_csv self w)"

fun run_calls :: "file_obj \<Rightarrow> call list \<Rightarrow> world \<Rightarrow> world option" where
  "run_calls self [] w = Some w"
| "run_calls self (c # cs) w =
     (case run_call self c w of None \<Rightarrow> None | Some w' \<Rightarrow> run_calls self cs w')"

text \<open>A regular file exists at the path.\<close>

definition is_regular :: "world \<Rightarrow> string \<Rightarrow> bool" where
  "is_regular w q = (case fs w q of Some (Reg r wr its) \<Rightarrow> True | _ \<Rightarrow> False)"

text \<open>
  The lines a list of \<open>to_csv\<close> calls appends, the header being asked for in the first
  call only, and the lines a regular file holds.
\<close>

fun written_lines :: "string option \<Rightarrow> bool \<Rightarrow> dataframe list \<Rightarrow> item list" where
  "written_lines enc header [] = []"
| "written_lines enc header (df # dfs) =
     csv_lines df header enc CHR '';'' False @ written_lines enc False dfs"

definition items_at :: "world \<Rightarrow> string \<Rightarrow> item list" where
  "items_at w q = (case fs w q of Some (Reg r wr its) \<Rightarrow> its | _ \<Rightarrow> [])"


section \<open>Properties\<close>

declare chunks_of.simps [simp del]


subsection \<open>Path splitting and normalisation\<close>

lemma rev_dropWhile_take:
  "take (length (dropWhile P (rev s))) s = rev (dropWhile P (rev s))"
proof -
  have "rev s = takeWhile P (rev s) @ dropWhile P (rev s)" by simp
  then have "s = rev (dropWhile P (rev s)) @ rev (takeWhile P (rev s))"
    by (metis rev_append rev_rev_ident)
  then have "take (length (dropWhile P (rev s))) s =
      take (length (dropWhile P (rev s))) (rev (dropWhile P (rev s)) @ rev (takeWhile P (rev s)))"
    by simp
  then show ?thesis by simp
qed

lemma rev_dropWhile_drop:
  "drop (length (dropWhile P (rev s))) s = rev (takeWhile P (rev s))"
proof -
  have "rev s = takeWhile P (rev s) @ dropWhile P (rev s)" by simp
  then have "s = rev (dropWhile P (rev s)) @ rev (takeWhile P (rev s))"
    by (metis rev_append rev_rev_ident)
  then have "drop (length (dropWhile P (rev s))) s =
      drop (length (dropWhile P (rev s))) (rev (dropWhile P (rev s)) @ rev (takeWhile P (rev s)))"
    by simp
  then show ?thesis by simp
qed

lemma rfind_index: "nat (rfind c s + 1) = length (dropWhile (\<lambda>x. x \<noteq> c) (rev s))"
  by (simp add: rfind_def)

lemma split_head: "take (nat (rfind c s + 1)) s = rev (dropWhile (\<lambda>x. x \<noteq> c) (rev s))"
  by (simp only: rfind_index rev_dropWhile_take)

lemma split_tail: "drop (nat (rfind c s + 1)) s = rev (takeWhile (\<lambda>x. x \<noteq> c) (rev s))"
  by (simp only: rfind_index rev_dropWhile_drop)

lemma split_tail_no_sep: "c \<notin> set (drop (nat (rfind c s + 1)) s)"
  unfolding split_tail by (auto dest: set_takeWhileD)

lemma split_head_last:
  "take (nat (rfind c s + 1)) s = [] \<or> last (take (nat (rfind c s + 1)) s) = c"
  unfolding split_head
  by (cases "dropWhile (\<lambda>x. x \<noteq> c) (rev s)") (auto dest: dropWhile_eq_Cons_conv[THEN iffD1] simp: hd_dropWhile)

lemma takeWhile_eq_is_replicate:
  "takeWhile (\<lambda>x. x = c) xs = replicate (length (takeWhile (\<lambda>x. x = c) xs)) c"
  by (induction xs) auto

lemma rstrip_decomp:
  "s = rstrip c s @ replicate (length (takeWhile (\<lambda>x. x = c) (rev s))) c"
proof -
  have "rev s = takeWhile (\<lambda>x. x = c) (rev s) @ dropWhile (\<lambda>x. x = c) (rev s)" by simp
  then have "s = rev (dropWhile (\<lambda>x. x = c) (rev s)) @ rev (takeWhile (\<lambda>x. x = c) (rev s))"
    by (metis rev_append rev_rev_ident)
  moreover have "rev (takeWhile (\<lambda>x. x = c) (rev s)) =
      replicate (length (takeWhile (\<lambda>x. x = c) (rev s))) c"
    by (subst takeWhile_eq_is_replicate) simp
  ultimately show ?thesis by (simp add: rstrip_def)
qed

lemma rstrip_last: "rstrip c s = [] \<or> last (rstrip c s) \<noteq> c"
  unfolding rstrip_def
  by (cases "dropWhile (\<lambda>x. x = c) (rev s)") (auto simp: last_rev dest: dropWhile_eq_Cons_conv[THEN iffD1])

lemma rstrip_empty_iff: "rstrip c s = [] \<longleftrightarrow> s = replicate (length s) c"
proof
  assume "rstrip c s = []"
  with rstrip_decomp[of s c] have e: "s = replicate (length (takeWhile (\<lambda>x. x = c) (rev s))) c"
    by simp
  then have "length s = length (takeWhile (\<lambda>x. x = c) (rev s))"
    by (metis length_replicate)
  with e show "s = replicate (length s) c" by simp
next
  assume "s = replicate (length s) c"
  then have "set s \<subseteq> {c}" by (metis set_replicate_conv_if empty_subsetI subset_refl)
  then have "dropWhile (\<lambda>x. x = c) (rev s) = []" by auto
  then show "rstrip c s = []" by (simp add: rstrip_def)
qed

lemma split_sep_nonempty: "split_sep s \<noteq> []"
  by (induction s) (auto split: list.splits)

lemma split_sep_append:
  "split_sep (a @ CHR ''/'' # b) = split_sep a @ split_sep b"
proof (induction a)
  case Nil
  show ?case by simp
next
  case (Cons c a)
  show ?case
  proof (cases "c = CHR ''/''")
    case True
    with Cons show ?thesis by simp
  next
    case False
    obtain x xs where sa: "split_sep a = x # xs"
      using split_sep_nonempty[of a] by (cases "split_sep a") auto
    with False Cons show ?thesis by simp
  qed
qed

lemma fold_norm_step_filter:
  "fold (norm_step ini) xs acc = fold (norm_step ini) (filter (\<lambda>c. c \<noteq> []) xs) acc"
  by (induction xs arbitrary: acc) (auto simp: norm_step_def)

lemma split_sep_replicate:
  "filter (\<lambda>c. c \<noteq> []) (split_sep (replicate n CHR ''/'' @ b)) = filter (\<lambda>c. c \<noteq> []) (split_sep b)"
  by (induction n) auto

lemma comps_collapse:
  "filter (\<lambda>c. c \<noteq> []) (split_sep (a @ replicate (Suc n) CHR ''/'' @ b)) =
   filter (\<lambda>c. c \<noteq> []) (split_sep (a @ CHR ''/'' # b))"
proof -
  have "a @ replicate (Suc n) CHR ''/'' @ b = a @ CHR ''/'' # (replicate n CHR ''/'' @ b)"
    by simp
  then show ?thesis
    by (simp only: split_sep_append filter_append split_sep_replicate)
qed

lemma initial_slashes_prefix:
  assumes "a \<noteq> []" "last a \<noteq> CHR ''/''"
  shows "initial_slashes (a @ b) = initial_slashes a"
proof -
  have count: "initial_slashes s =
      (let m = length (takeWhile (\<lambda>x. x = CHR ''/'') s)
       in if m = 0 then 0 else if m = 2 then 2 else 1)" for s
  proof (cases s)
    case Nil
    then show ?thesis by (simp add: initial_slashes_def)
  next
    case (Cons x xs)
    note c1 = Cons
    show ?thesis
    proof (cases xs)
      case Nil
      with c1 show ?thesis by (simp add: initial_slashes_def)
    next
      case (Cons y ys)
      note c2 = Cons
      show ?thesis
      proof (cases ys)
        case Nil
        with c1 c2 show ?thesis by (simp add: initial_slashes_def)
      next
        case (Cons z zs)
        with c1 c2 show ?thesis by (simp add: initial_slashes_def)
      qed
    qed
  qed
  from assms have "\<exists>x\<in>set a. \<not> x = CHR ''/''"
    using last_in_set by blast
  then have "takeWhile (\<lambda>x. x = CHR ''/'') (a @ b) = takeWhile (\<lambda>x. x = CHR ''/'') a"
    by (auto intro: takeWhile_append1)
  then show ?thesis by (simp add: count)
qed

lemma normpath_collapse:
  assumes "a \<noteq> []" "last a \<noteq> CHR ''/''"
  shows "normpath (a @ replicate (Suc n) CHR ''/'' @ b) = normpath (a @ CHR ''/'' # b)"
proof -
  have i1: "initial_slashes (a @ replicate (Suc n) CHR ''/'' @ b) = initial_slashes a"
    using assms by (rule initial_slashes_prefix)
  have i2: "initial_slashes (a @ CHR ''/'' # b) = initial_slashes a"
    using assms by (rule initial_slashes_prefix)
  have f: "fold (norm_step k) (split_sep (a @ replicate (Suc n) CHR ''/'' @ b)) [] =
           fold (norm_step k) (split_sep (a @ CHR ''/'' # b)) []" for k
    by (subst fold_norm_step_filter, subst (2) fold_norm_step_filter) (simp only: comps_collapse)
  from assms(1) show ?thesis
    unfolding normpath_def Let_def i1 i2 f by simp
qed

lemma split_concat:
  "\<exists>h t. p = h @ t \<and> (h = [] \<or> last h = CHR ''/'') \<and> CHR ''/'' \<notin> set t \<and>
     os_path_split p =
       (if h = replicate (length h) CHR ''/'' then h else rstrip CHR ''/'' h, t)"
proof -
  let ?i = "nat (rfind CHR ''/'' p + 1)"
  have b: "take ?i p = [] \<or> last (take ?i p) = CHR ''/''" by (rule split_head_last)
  have c: "CHR ''/'' \<notin> set (drop ?i p)" by (rule split_tail_no_sep)
  have d: "os_path_split p =
      (if take ?i p = replicate (length (take ?i p)) CHR ''/'' then take ?i p
       else rstrip CHR ''/'' (take ?i p), drop ?i p)"
    by (auto simp: os_path_split_def Let_def)
  show ?thesis
    apply (rule exI[of _ "take ?i p"])
    apply (rule exI[of _ "drop ?i p"])
    apply (intro conjI)
       apply (rule append_take_drop_id[symmetric])
      apply (rule b)
     apply (rule c)
    apply (rule d)
    done
qed

lemma join_split_normpath:
  "normpath (os_path_join (fst (os_path_split p)) (snd (os_path_split p))) = normpath p"
proof -
  obtain h t where p: "p = h @ t"
    and h: "h = [] \<or> last h = CHR ''/''"
    and t: "CHR ''/'' \<notin> set t"
    and d: "os_path_split p =
         (if h = replicate (length h) CHR ''/'' then h else rstrip CHR ''/'' h, t)"
    using split_concat[of p] by blast
  have nohd: "\<not> (t \<noteq> [] \<and> hd t = CHR ''/'')"
    using t by (cases t) auto
  show ?thesis
  proof (cases "h = replicate (length h) CHR ''/''")
    case True
    with d have "os_path_split p = (h, t)" by simp
    with h nohd have "os_path_join (fst (os_path_split p)) (snd (os_path_split p)) = h @ t"
      by (auto simp: os_path_join_def)
    with p show ?thesis by simp
  next
    case False
    define dd where "dd = rstrip CHR ''/'' h"
    from False d have sp: "os_path_split p = (dd, t)" by (simp add: dd_def)
    from False have ne: "dd \<noteq> []" by (simp add: rstrip_empty_iff dd_def)
    with rstrip_last[of "CHR ''/''" h] have la: "last dd \<noteq> CHR ''/''" by (simp add: dd_def)
    obtain n where hn: "h = dd @ replicate n CHR ''/''"
      using rstrip_decomp[of h "CHR ''/''"] unfolding dd_def by blast
    have "n \<noteq> 0"
    proof
      assume "n = 0"
      with hn have "h = dd" by simp
      with h ne la show False by simp
    qed
    then obtain m where n: "n = Suc m" by (cases n) auto
    have j: "os_path_join (fst (os_path_split p)) (snd (os_path_split p)) = dd @ CHR ''/'' # t"
      using nohd ne la by (simp add: os_path_join_def sp)
    have "p = dd @ replicate (Suc m) CHR ''/'' @ t"
      by (simp only: p hn n append_assoc)
    then have "normpath p = normpath (dd @ replicate (Suc m) CHR ''/'' @ t)" by simp
    also have "\<dots> = normpath (dd @ CHR ''/'' # t)"
      using ne la by (rule normpath_collapse)
    finally show ?thesis by (simp only: j)
  qed
qed

lemma splitext_concat: "fst (os_path_splitext s) @ snd (os_path_splitext s) = s"
  by (simp add: os_path_splitext_def Let_def)

lemma rfind_absent: "c \<notin> set s \<Longrightarrow> rfind c s = -1"
  by (auto simp: rfind_def dropWhile_eq_Nil_conv)

lemma last_occurrence:
  assumes "c \<in> set s"
  shows "\<exists>a b. s = a @ c # b \<and> c \<notin> set b \<and> rfind c s = int (length a)"
proof -
  define tw where "tw = takeWhile (\<lambda>x. x \<noteq> c) (rev s)"
  define dw where "dw = dropWhile (\<lambda>x. x \<noteq> c) (rev s)"
  have rs: "rev s = tw @ dw" by (simp add: tw_def dw_def)
  from assms have "dw \<noteq> []" by (auto simp: dw_def dropWhile_eq_Nil_conv)
  then obtain ys where dwc: "dw = c # ys"
    unfolding dw_def
    by (cases "dropWhile (\<lambda>x. x \<noteq> c) (rev s)") (auto dest: dropWhile_eq_Cons_conv[THEN iffD1])
  have "rev (rev s) = rev (tw @ c # ys)" by (simp only: rs dwc)
  then have s: "s = rev ys @ c # rev tw" by simp
  have notin: "c \<notin> set (rev tw)" by (auto simp: tw_def dest: set_takeWhileD)
  have "rfind c s = int (length (rev ys))"
    using dwc by (simp add: rfind_def dw_def)
  with s notin show ?thesis by blast
qed

text \<open>The extension of a name without separators.\<close>

lemma splitext_plain:
  assumes "CHR ''/'' \<notin> set s"
  shows "os_path_splitext s =
     (if list_ex (\<lambda>c. c \<noteq> CHR ''.'') (take (nat (rfind CHR ''.'' s)) s)
      then (take (nat (rfind CHR ''.'' s)) s, drop (nat (rfind CHR ''.'' s)) s) else (s, []))"
proof -
  have sep: "rfind CHR ''/'' s = -1" using assms by (rule rfind_absent)
  show ?thesis
  proof (cases "rfind CHR ''.'' s > -1")
    case True
    then show ?thesis by (simp add: os_path_splitext_def Let_def sep)
  next
    case False
    then have "nat (rfind CHR ''.'' s) = 0" by simp
    with False show ?thesis by (simp add: os_path_splitext_def Let_def sep)
  qed
qed

lemma splitext_shape:
  assumes "CHR ''/'' \<notin> set s"
  shows "os_path_splitext s = (s, []) \<and> \<not> (\<exists>a b. s = a @ CHR ''.'' # b \<and> CHR ''.'' \<notin> set b \<and> list_ex (\<lambda>c. c \<noteq> CHR ''.'') a) \<or>
     (\<exists>a b. s = a @ CHR ''.'' # b \<and> CHR ''.'' \<notin> set b \<and> list_ex (\<lambda>c. c \<noteq> CHR ''.'') a \<and>
            os_path_splitext s = (a, CHR ''.'' # b))"
proof (cases "CHR ''.'' \<in> set s")
  case False
  then have "rfind CHR ''.'' s = -1" by (rule rfind_absent)
  then have "os_path_splitext s = (s, [])" by (simp add: splitext_plain[OF assms])
  with False show ?thesis by auto
next
  case True
  then obtain a b where s: "s = a @ CHR ''.'' # b" and b: "CHR ''.'' \<notin> set b"
    and r: "rfind CHR ''.'' s = int (length a)"
    using last_occurrence by blast
  have uniq: "a' = a \<and> b' = b" if "s = a' @ CHR ''.'' # b'" "CHR ''.'' \<notin> set b'" for a' b'
  proof -
    from that(1) s have "a' @ CHR ''.'' # b' = a @ CHR ''.'' # b" by simp
    then show ?thesis using that(2) b
      by (auto simp: append_eq_append_conv2 Cons_eq_append_conv append_eq_Cons_conv)
  qed
  have sp: "os_path_splitext s =
     (if list_ex (\<lambda>c. c \<noteq> CHR ''.'') a then (a, CHR ''.'' # b) else (s, []))"
    using splitext_plain[OF assms] by (simp add: r) (simp add: s)
  show ?thesis
  proof (cases "list_ex (\<lambda>c. c \<noteq> CHR ''.'') a")
    case True
    with sp s b show ?thesis by auto
  next
    case False
    with sp have "os_path_splitext s = (s, [])" by simp
    moreover have "\<not> (\<exists>a' b'. s = a' @ CHR ''.'' # b' \<and> CHR ''.'' \<notin> set b' \<and> list_ex (\<lambda>c. c \<noteq> CHR ''.'') a')"
      using uniq False by blast
    ultimately show ?thesis by simp
  qed
qed

subsection \<open>Construction, the probe and create\<close>

lemma File_attrs_sel:
  "path (File_attrs p enc) = p"
  "encoding (File_attrs p enc) = enc"
  "directory (File_attrs p enc) = fst (os_path_split p)"
  "file' (File_attrs p enc) = snd (os_path_split p)"
  "name (File_attrs p enc) = fst (os_path_splitext (snd (os_path_split p)))"
  "extension (File_attrs p enc) = snd (os_path_splitext (snd (os_path_split p)))"
  by (simp_all add: File_attrs_def split: prod.splits)

lemma builtin_open_read:
  "builtin_open p ModeR w =
     (case fs w p of
        None \<Rightarrow> (Inl FileNotFoundError, emit (EvOpen p ModeR) w)
      | Some Dir \<Rightarrow> (Inl IsADirectoryError, emit (EvOpen p ModeR) w)
      | Some (Reg r wr its) \<Rightarrow>
          if r then (Inr (Handle p ModeR), (emit (EvOpen p ModeR) w)\<lparr>opened := p # opened w\<rparr>)
          else (Inl PermissionError, emit (EvOpen p ModeR) w))"
  by (simp add: builtin_open_def open_effect_def emit_def Let_def split: option.splits node.splits)

lemma File_init_cases:
  "File_init p enc w =
     (case fs w p of
        None \<Rightarrow> (Inl FileNotFoundError, emit (EvOpen p ModeR) w)
      | Some Dir \<Rightarrow> (Inl IsADirectoryError, emit (EvOpen p ModeR) w)
      | Some (Reg r wr its) \<Rightarrow>
          if r then (Inr (File_attrs p enc), w\<lparr>log := log w @ [EvOpen p ModeR, EvClose p]\<rparr>)
          else (Inl PermissionError, emit (EvOpen p ModeR) w))"
  by (simp add: File_init_def File_open_def File_attrs_sel builtin_open_read emit_def Let_def
      split: option.splits node.splits)


lemma File_create_cases:
  "File_create self w =
     (case fs w (path self) of
        None \<Rightarrow>
          (case new_entry w (path self) of
             Some e \<Rightarrow> (Inl e, w\<lparr>log := log w @ [EvOpen (path self) ModeX]\<rparr>)
           | None \<Rightarrow>
               (Inr (), w\<lparr>fs := (fs w)(path self \<mapsto> new_file w),
                          log := log w @ [EvOpen (path self) ModeX,
                            EvPrint (''File '' @ file' self @ '' created in '' @ directory self),
                            EvClose (path self)]\<rparr>))
      | Some nd \<Rightarrow> (Inl FileExistsError, w\<lparr>log := log w @ [EvOpen (path self) ModeX]\<rparr>))"
  by (auto simp: File_create_def File_open_def builtin_open_def open_effect_def emit_def print_def
      new_entry_def new_file_def Let_def split: option.splits node.splits)

text \<open>
  Claim C6, amended. \<open>create()\<close> fails with \<open>FileExistsError\<close> when something exists
  at the path. When nothing exists there, it fails with \<open>FileNotFoundError\<close> when the
  directory of the path does not exist, with \<open>NotADirectoryError\<close> when a regular file
  stands in its place, and with \<open>PermissionError\<close> when the directory admits no new
  entry; otherwise it succeeds, prints the notice, and leaves an empty regular file that
  is closed, with the permissions the creation mask leaves: it can be opened for reading
  exactly when that mask leaves the read permission.
\<close>

theorem File_create_exclusive:
  "(fs w (path self) \<noteq> None \<longrightarrow>
      File_create self w = (Inl FileExistsError, w\<lparr>log := log w @ [EvOpen (path self) ModeX]\<rparr>)) \<and>
   (fs w (path self) = None \<longrightarrow>
      (fs w (parent_of (path self)) = None \<longrightarrow>
         File_create self w =
           (Inl FileNotFoundError, w\<lparr>log := log w @ [EvOpen (path self) ModeX]\<rparr>)) \<and>
      (is_regular w (parent_of (path self)) \<longrightarrow>
         File_create self w =
           (Inl NotADirectoryError, w\<lparr>log := log w @ [EvOpen (path self) ModeX]\<rparr>)) \<and>
      (fs w (parent_of (path self)) = Some Dir \<and>
       \<not> may_create (platform w) (parent_of (path self)) \<longrightarrow>
         File_create self w =
           (Inl PermissionError, w\<lparr>log := log w @ [EvOpen (path self) ModeX]\<rparr>)) \<and>
      (fs w (parent_of (path self)) = Some Dir \<and>
       may_create (platform w) (parent_of (path self)) \<longrightarrow>
         File_create self w =
           (Inr (), w\<lparr>fs := (fs w)(path self \<mapsto>
                        Reg (new_readable (platform w)) (new_writable (platform w)) []),
                      log := log w @ [EvOpen (path self) ModeX,
                        EvPrint (''File '' @ file' self @ '' created in '' @ directory self),
                        EvClose (path self)]\<rparr>) \<and>
         opened (snd (File_create self w)) = opened w \<and>
         fst (builtin_open (path self) ModeR (snd (File_create self w))) =
           (if new_readable (platform w) then Inr (Handle (path self) ModeR)
            else Inl PermissionError)))"
  by (auto simp: File_create_cases new_entry_def new_file_def builtin_open_read emit_def
      is_regular_def split: option.splits node.splits)

text \<open>
  The branches of the amended C6 in the directory \<open>d\<close>: a path that exists, a fresh
  one, a directory that admits no new entry, and a regular file in the directory's place.
\<close>

theorem File_create_exclusive_witness:
  "File_create (File_attrs ''d/a.txt'' None)
      \<lparr>fs = [''d'' \<mapsto> Dir, ''d/a.txt'' \<mapsto> Reg True True []], opened = [], log = [],
       platform = usual\<rparr> =
     (Inl FileExistsError,
      \<lparr>fs = [''d'' \<mapsto> Dir, ''d/a.txt'' \<mapsto> Reg True True []], opened = [],
       log = [EvOpen ''d/a.txt'' ModeX], platform = usual\<rparr>) \<and>
   File_create (File_attrs ''d/a.txt'' None)
      \<lparr>fs = [''d'' \<mapsto> Dir], opened = [], log = [], platform = usual\<rparr> =
     (Inr (),
      \<lparr>fs = [''d'' \<mapsto> Dir, ''d/a.txt'' \<mapsto> Reg True True []], opened = [],
       log = [EvOpen ''d/a.txt'' ModeX, EvPrint ''File a.txt created in d'', EvClose ''d/a.txt''],
       platform = usual\<rparr>) \<and>
   File_create (File_attrs ''d/a.txt'' None)
      \<lparr>fs = [''d'' \<mapsto> Dir], opened = [], log = [],
       platform = usual\<lparr>may_create := (\<lambda>d. False)\<rparr>\<rparr> =
     (Inl PermissionError,
      \<lparr>fs = [''d'' \<mapsto> Dir], opened = [], log = [EvOpen ''d/a.txt'' ModeX],
       platform = usual\<lparr>may_create := (\<lambda>d. False)\<rparr>\<rparr>) \<and>
   File_create (File_attrs ''d/a.txt'' None)
      \<lparr>fs = [''d'' \<mapsto> Reg True True []], opened = [], log = [], platform = usual\<rparr> =
     (Inl NotADirectoryError,
      \<lparr>fs = [''d'' \<mapsto> Reg True True []], opened = [], log = [EvOpen ''d/a.txt'' ModeX],
       platform = usual\<rparr>)"
proof -
  define S where "S = File_attrs ''d/a.txt'' None"
  have a: "path S = ''d/a.txt''" "file' S = ''a.txt''" "directory S = ''d''"
    by (simp_all add: S_def File_attrs_sel os_path_split_def rfind_def rstrip_def Let_def)
  have par: "parent_of ''d/a.txt'' = ''d''"
    by (simp add: parent_of_def os_path_split_def rfind_def rstrip_def Let_def)
  have 1: "File_create S
      \<lparr>fs = [''d'' \<mapsto> Dir, ''d/a.txt'' \<mapsto> Reg True True []], opened = [], log = [],
       platform = usual\<rparr> =
     (Inl FileExistsError,
      \<lparr>fs = [''d'' \<mapsto> Dir, ''d/a.txt'' \<mapsto> Reg True True []], opened = [],
       log = [EvOpen ''d/a.txt'' ModeX], platform = usual\<rparr>)"
    using File_create_exclusive [of "\<lparr>fs = [''d'' \<mapsto> Dir, ''d/a.txt'' \<mapsto> Reg True True []],
        opened = [], log = [], platform = usual\<rparr>" S]
    by (simp add: a)
  have 2: "File_create S \<lparr>fs = [''d'' \<mapsto> Dir], opened = [], log = [], platform = usual\<rparr> =
     (Inr (),
      \<lparr>fs = [''d'' \<mapsto> Dir, ''d/a.txt'' \<mapsto> Reg True True []], opened = [],
       log = [EvOpen ''d/a.txt'' ModeX, EvPrint ''File a.txt created in d'', EvClose ''d/a.txt''],
       platform = usual\<rparr>)"
    using File_create_exclusive [of "\<lparr>fs = [''d'' \<mapsto> Dir], opened = [], log = [],
        platform = usual\<rparr>" S]
    by (simp add: a par usual_def)
  have 3: "File_create S \<lparr>fs = [''d'' \<mapsto> Dir], opened = [], log = [],
       platform = usual\<lparr>may_create := (\<lambda>d. False)\<rparr>\<rparr> =
     (Inl PermissionError,
      \<lparr>fs = [''d'' \<mapsto> Dir], opened = [], log = [EvOpen ''d/a.txt'' ModeX],
       platform = usual\<lparr>may_create := (\<lambda>d. False)\<rparr>\<rparr>)"
    using File_create_exclusive [of "\<lparr>fs = [''d'' \<mapsto> Dir], opened = [], log = [],
        platform = usual\<lparr>may_create := (\<lambda>d. False)\<rparr>\<rparr>" S]
    by (simp add: a par)
  have 4: "File_create S \<lparr>fs = [''d'' \<mapsto> Reg True True []], opened = [], log = [],
       platform = usual\<rparr> =
     (Inl NotADirectoryError,
      \<lparr>fs = [''d'' \<mapsto> Reg True True []], opened = [], log = [EvOpen ''d/a.txt'' ModeX],
       platform = usual\<rparr>)"
    using File_create_exclusive [of "\<lparr>fs = [''d'' \<mapsto> Reg True True []], opened = [], log = [],
        platform = usual\<rparr>" S]
    by (simp add: a par is_regular_def)
  from 1 2 3 4 show ?thesis unfolding S_def by simp
qed

text \<open>
  Claim C6 as stated fails on a fresh path whose directory does not exist: nothing exists
  at \<open>d/a.txt\<close>, and \<open>create()\<close> raises \<open>FileNotFoundError\<close> and creates nothing.
\<close>

theorem File_create_missing_parent_counterexample:
  "fs \<lparr>fs = Map.empty, opened = [], log = [], platform = usual\<rparr> ''d/a.txt'' = None \<and>
   File_create (File_attrs ''d/a.txt'' None)
      \<lparr>fs = Map.empty, opened = [], log = [], platform = usual\<rparr> =
     (Inl FileNotFoundError,
      \<lparr>fs = Map.empty, opened = [], log = [EvOpen ''d/a.txt'' ModeX], platform = usual\<rparr>)"
  by (simp add: File_create_cases File_attrs_sel new_entry_def parent_of_def os_path_split_def
      rfind_def rstrip_def Let_def)

text \<open>
  Claim C10, amended. For a path whose file name is exactly \<open>.sas7bdat\<close>, the split of
  the name leaves the whole name as base name and an empty extension, and constructing a
  \<open>Sas\<close> fails: with the probe's error when the probe open fails, and with the
  \<open>TypeError\<close> that names the file when the probe succeeds.
\<close>

theorem dotfile_rejected:
  assumes "file' (File_attrs p enc) = ''.sas7bdat''"
  shows "name (File_attrs p enc) = ''.sas7bdat'' \<and> extension (File_attrs p enc) = [] \<and>
    fst (Sas_init p enc w) =
      (case fst (builtin_open p ModeR w) of
         Inl e \<Rightarrow> Inl e
       | Inr h \<Rightarrow> Inl (TypeError ''.sas7bdat is not a sas7bdat file''))"
proof -
  have e: "os_path_splitext ''.sas7bdat'' = (''.sas7bdat'', [])"
    by (simp add: os_path_splitext_def rfind_def Let_def)
  from assms have f: "snd (os_path_split p) = ''.sas7bdat''" by (simp add: File_attrs_sel)
  have n: "name (File_attrs p enc) = ''.sas7bdat''" and x: "extension (File_attrs p enc) = []"
    by (simp_all add: File_attrs_sel f e)
  have "fst (Sas_init p enc w) =
      (case fst (builtin_open p ModeR w) of
         Inl e \<Rightarrow> Inl e
       | Inr h \<Rightarrow> Inl (TypeError ''.sas7bdat is not a sas7bdat file''))"
    using assms
    by (simp add: Sas_init_def File_init_cases builtin_open_read x
        split: option.splits node.splits)
  with n x show ?thesis by simp
qed

text \<open>The amended C10 on the readable file \<open>data/.sas7bdat\<close>.\<close>

theorem dotfile_rejected_witness:
  "file' (File_attrs ''data/.sas7bdat'' (Some ''latin1'')) = ''.sas7bdat'' \<and>
   fst (Sas_init ''data/.sas7bdat'' (Some ''latin1'')
     \<lparr>fs = [''data'' \<mapsto> Dir, ''data/.sas7bdat'' \<mapsto>
              Reg True True [Image \<lparr>col_names = [''a''], sas_rows = []\<rparr>]],
      opened = [], log = [], platform = usual\<rparr>) =
     Inl (TypeError ''.sas7bdat is not a sas7bdat file'')"
proof -
  have f: "file' (File_attrs ''data/.sas7bdat'' (Some ''latin1'')) = ''.sas7bdat''"
    by (simp add: File_attrs_sel os_path_split_def rfind_def Let_def)
  show ?thesis
    using f dotfile_rejected [OF f, of
        "\<lparr>fs = [''data'' \<mapsto> Dir, ''data/.sas7bdat'' \<mapsto>
              Reg True True [Image \<lparr>col_names = [''a''], sas_rows = []\<rparr>]],
          opened = [], log = [], platform = usual\<rparr>"]
    by (simp add: builtin_open_read)
qed

text \<open>
  Claim C10 as stated fails on an existing file that cannot be read: the probe of
  \<open>data/.sas7bdat\<close> raises \<open>PermissionError\<close> before the extension is looked at.
\<close>

theorem dotfile_unreadable_counterexample:
  "file' (File_attrs ''data/.sas7bdat'' (Some ''latin1'')) = ''.sas7bdat'' \<and>
   fs \<lparr>fs = [''data'' \<mapsto> Dir, ''data/.sas7bdat'' \<mapsto>
              Reg False True [Image \<lparr>col_names = [''a''], sas_rows = []\<rparr>]],
       opened = [], log = [], platform = usual\<rparr> ''data/.sas7bdat'' =
     Some (Reg False True [Image \<lparr>col_names = [''a''], sas_rows = []\<rparr>]) \<and>
   fst (Sas_init ''data/.sas7bdat'' (Some ''latin1'')
     \<lparr>fs = [''data'' \<mapsto> Dir, ''data/.sas7bdat'' \<mapsto>
              Reg False True [Image \<lparr>col_names = [''a''], sas_rows = []\<rparr>]],
      opened = [], log = [], platform = usual\<rparr>) = Inl PermissionError"
  by (simp add: Sas_init_def File_init_cases File_attrs_sel os_path_split_def rfind_def Let_def)

text \<open>
  Claim C2, amended. For a path whose extension is not exactly \<open>.sas7bdat\<close>,
  constructing a \<open>Sas\<close> fails: with the probe's error when the probe open fails (the
  path does not exist or cannot be read), and with the \<open>TypeError\<close> naming the file
  when the probe succeeds.
\<close>

theorem Sas_init_wrong_extension:
  assumes "extension (File_attrs p enc) \<noteq> ''.sas7bdat''"
  shows "fst (Sas_init p enc w) =
     (case fst (builtin_open p ModeR w) of
        Inl e \<Rightarrow> Inl e
      | Inr h \<Rightarrow> Inl (TypeError (file' (File_attrs p enc) @ '' is not a sas7bdat file'')))"
  using assms
  by (simp add: Sas_init_def File_init_cases builtin_open_read split: option.splits node.splits)

text \<open>The amended C2 on the existing file \<open>a.txt\<close>.\<close>

theorem Sas_init_wrong_extension_witness:
  "extension (File_attrs ''a.txt'' (Some ''latin1'')) \<noteq> ''.sas7bdat'' \<and>
   fst (Sas_init ''a.txt'' (Some ''latin1'')
     \<lparr>fs = [''a.txt'' \<mapsto> Reg True True []], opened = [], log = [], platform = usual\<rparr>) =
     Inl (TypeError ''a.txt is not a sas7bdat file'')"
proof -
  have x: "extension (File_attrs ''a.txt'' (Some ''latin1'')) \<noteq> ''.sas7bdat''"
    by (simp add: File_attrs_sel os_path_split_def os_path_splitext_def rfind_def Let_def)
  have f: "file' (File_attrs ''a.txt'' (Some ''latin1'')) = ''a.txt''"
    by (simp add: File_attrs_sel os_path_split_def rfind_def Let_def)
  show ?thesis
    using x Sas_init_wrong_extension [OF x, of
        "\<lparr>fs = [''a.txt'' \<mapsto> Reg True True []], opened = [], log = [], platform = usual\<rparr>"]
    by (simp add: builtin_open_read f)
qed

text \<open>
  Claim C2 as stated fails on a path that does not exist: the constructor of \<open>File\<close>
  runs first and its probe raises \<open>FileNotFoundError\<close>, not the \<open>TypeError\<close>.
\<close>

theorem Sas_init_missing_file_counterexample:
  "extension (File_attrs ''a.txt'' (Some ''latin1'')) \<noteq> ''.sas7bdat'' \<and>
   fst (Sas_init ''a.txt'' (Some ''latin1'') \<lparr>fs = Map.empty, opened = [], log = [], platform = usual\<rparr>) =
     Inl FileNotFoundError \<and>
   fst (Sas_init ''a.txt'' (Some ''latin1'') \<lparr>fs = Map.empty, opened = [], log = [], platform = usual\<rparr>) \<noteq>
     Inl (TypeError ''a.txt is not a sas7bdat file'')"
  by (simp add: Sas_init_def File_init_cases File_attrs_sel os_path_split_def os_path_splitext_def
      rfind_def Let_def)

lemma File_init_success:
  assumes "File_init p enc w = (Inr self, w')"
  shows "self = File_attrs p enc" and "\<exists>wr its. fs w p = Some (Reg True wr its)"
    and "fs w' = fs w" and "w' = w\<lparr>log := log w @ [EvOpen p ModeR, EvClose p]\<rparr>"
  using assms by (auto simp: File_init_cases split: option.splits node.splits if_splits)

text \<open>
  Claim C5, amended. After a successful construction, \<open>name + extension = file\<close>;
  \<open>os.path.join(directory, file)\<close> and \<open>path\<close> have the same normal form; \<open>file\<close> is
  what follows the last separator of the path, and \<open>directory\<close> is what precedes it
  without its trailing separators (kept when it consists of separators only); the
  extension starts at the last dot of \<open>file\<close> when a character other than a dot
  precedes that dot, and is empty otherwise.
\<close>

theorem File_attrs_decomposition:
  assumes "File_init p enc w = (Inr self, w')"
  shows "name self @ extension self = file' self \<and>
    normpath (os_path_join (directory self) (file' self)) = normpath p \<and>
    (\<exists>h. p = h @ file' self \<and> (h = [] \<or> last h = CHR ''/'') \<and>
       CHR ''/'' \<notin> set (file' self) \<and>
       directory self = (if h = replicate (length h) CHR ''/'' then h else rstrip CHR ''/'' h)) \<and>
    ((\<exists>a b. file' self = a @ CHR ''.'' # b \<and> CHR ''.'' \<notin> set b \<and>
        list_ex (\<lambda>c. c \<noteq> CHR ''.'') a \<and> name self = a \<and> extension self = CHR ''.'' # b) \<or>
     (name self = file' self \<and> extension self = [] \<and>
      \<not> (\<exists>a b. file' self = a @ CHR ''.'' # b \<and> CHR ''.'' \<notin> set b \<and>
        list_ex (\<lambda>c. c \<noteq> CHR ''.'') a)))"
proof -
  have self: "self = File_attrs p enc" using assms by (rule File_init_success)
  obtain h t where p: "p = h @ t"
    and h: "h = [] \<or> last h = CHR ''/''"
    and t: "CHR ''/'' \<notin> set t"
    and d: "os_path_split p =
         (if h = replicate (length h) CHR ''/'' then h else rstrip CHR ''/'' h, t)"
    using split_concat[of p] by blast
  have ft: "file' self = t" by (simp add: self File_attrs_sel d)
  have c1: "name self @ extension self = file' self"
    by (simp add: self File_attrs_sel splitext_concat)
  have c2: "normpath (os_path_join (directory self) (file' self)) = normpath p"
    by (simp add: self File_attrs_sel join_split_normpath)
  have c3: "\<exists>h. p = h @ file' self \<and> (h = [] \<or> last h = CHR ''/'') \<and>
       CHR ''/'' \<notin> set (file' self) \<and>
       directory self = (if h = replicate (length h) CHR ''/'' then h else rstrip CHR ''/'' h)"
    apply (rule exI[of _ h])
    apply (simp only: ft)
    using p h t d apply (simp add: self File_attrs_sel)
    done
  have ne: "name self = fst (os_path_splitext t)" "extension self = snd (os_path_splitext t)"
    by (simp_all add: self File_attrs_sel d)
  have c4: "(\<exists>a b. file' self = a @ CHR ''.'' # b \<and> CHR ''.'' \<notin> set b \<and>
        list_ex (\<lambda>c. c \<noteq> CHR ''.'') a \<and> name self = a \<and> extension self = CHR ''.'' # b) \<or>
     (name self = file' self \<and> extension self = [] \<and>
      \<not> (\<exists>a b. file' self = a @ CHR ''.'' # b \<and> CHR ''.'' \<notin> set b \<and>
        list_ex (\<lambda>c. c \<noteq> CHR ''.'') a))"
    using splitext_shape[OF t] unfolding ft ne by auto
  from c1 c2 c3 c4 show ?thesis by blast
qed

text \<open>The amended C5 on the path \<open>a//b.tar.gz\<close>.\<close>

theorem File_attrs_decomposition_witness:
  "File_init ''a//b.tar.gz'' None
      \<lparr>fs = [''a//b.tar.gz'' \<mapsto> Reg True True []], opened = [], log = [], platform = usual\<rparr> =
    (Inr \<lparr>path = ''a//b.tar.gz'', encoding = None, directory = ''a'', file' = ''b.tar.gz'',
          name = ''b.tar'', extension = ''.gz''\<rparr>,
     \<lparr>fs = [''a//b.tar.gz'' \<mapsto> Reg True True []], opened = [],
      log = [EvOpen ''a//b.tar.gz'' ModeR, EvClose ''a//b.tar.gz''], platform = usual\<rparr>) \<and>
   normpath (os_path_join ''a'' ''b.tar.gz'') = normpath ''a//b.tar.gz''"
proof -
  have i: "File_init ''a//b.tar.gz'' None
      \<lparr>fs = [''a//b.tar.gz'' \<mapsto> Reg True True []], opened = [], log = [], platform = usual\<rparr> =
    (Inr \<lparr>path = ''a//b.tar.gz'', encoding = None, directory = ''a'', file' = ''b.tar.gz'',
          name = ''b.tar'', extension = ''.gz''\<rparr>,
     \<lparr>fs = [''a//b.tar.gz'' \<mapsto> Reg True True []], opened = [],
      log = [EvOpen ''a//b.tar.gz'' ModeR, EvClose ''a//b.tar.gz''], platform = usual\<rparr>)"
    by (simp add: File_init_cases File_attrs_def os_path_split_def os_path_splitext_def
        rfind_def rstrip_def Let_def)
  show ?thesis
    using i File_attrs_decomposition [OF i] by (simp add: rstrip_def)
qed

text \<open>
  Claim C5 as stated fails on a path without a separator: for the existing file \<open>b\<close>
  the directory is empty, so \<open>directory + '/' + file\<close> is \<open>/b\<close>, which is not the path,
  and the normal forms differ as well.
\<close>

theorem File_attrs_bare_name_counterexample:
  "fst (File_init ''b'' None \<lparr>fs = [''b'' \<mapsto> Reg True True []], opened = [], log = [], platform = usual\<rparr>) =
     Inr (File_attrs ''b'' None) \<and>
   directory (File_attrs ''b'' None) @ ''/'' @ file' (File_attrs ''b'' None) = ''/b'' \<and>
   normpath (directory (File_attrs ''b'' None) @ ''/'' @ file' (File_attrs ''b'' None)) \<noteq>
     normpath ''b''"
  by (simp add: File_init_cases File_attrs_sel os_path_split_def rfind_def Let_def
      normpath_def initial_slashes_def norm_step_def)

subsection \<open>Reading in chunks\<close>

lemma chunks_of_concat: "0 < k \<Longrightarrow> concat (chunks_of k xs) = xs"
proof (induction k xs rule: chunks_of.induct)
  case (1 k xs)
  then show ?case by (subst chunks_of.simps) auto
qed

lemma chunks_of_length: "\<forall>c \<in> set (chunks_of k xs). length c \<le> k \<and> c \<noteq> []"
proof (induction k xs rule: chunks_of.induct)
  case (1 k xs)
  show ?case
  proof (cases "k = 0 \<or> xs = []")
    case True
    then show ?thesis by (subst chunks_of.simps) simp
  next
    case False
    with 1 show ?thesis by (subst chunks_of.simps) auto
  qed
qed

lemma converts_subset:
  "converts pf enc d rs \<Longrightarrow> set rs' \<subseteq> set rs \<Longrightarrow> converts pf enc d rs'"
  by (auto simp: converts_def list_all_iff)

lemma converts_take_drop:
  "converts pf enc d rs \<Longrightarrow> converts pf enc d (take k (drop off rs))"
  by (erule converts_subset) (meson set_drop_subset set_take_subset subset_trans)

lemma converts_nil:
  "converts pf enc d rs \<Longrightarrow> converts pf enc d []"
  by (simp add: converts_def)

lemma read_valid:
  assumes "fs w p = Some (Reg True wr [Image d])"
  shows "read_sas7bdat w p m dates enc lim off =
     (if converts (platform w) enc d
           (if m then [] else limit_rows lim (drop off (sas_rows d)))
      then Inr (frame d enc dates (if m then [] else limit_rows lim (drop off (sas_rows d))),
                meta_of d enc
                  (if m then length (sas_rows d)
                   else length (limit_rows lim (drop off (sas_rows d)))))
      else Inl ReadstatError)"
  using assms by (simp add: read_sas7bdat_def Let_def)

lemma rows_frame [simp]: "rows (frame d enc dates rs) = map (map (to_python enc dates)) rs"
  by (simp add: frame_def)

lemma columns_frame [simp]: "columns (frame d enc dates rs) = map (PyStr enc) (col_names d)"
  by (simp add: frame_def)

text \<open>One turn of the loop over a dataset with rows.\<close>

lemma chunk_loop_step:
  assumes src: "fs w p = Some (Reg True wr [Image d])"
    and k: "0 < k" and n: "sas_rows d \<noteq> []"
  shows "chunk_loop body p enc k (length (sas_rows d)) off s w =
     (if length (sas_rows d) \<le> off then Some (Inr s, w)
      else if \<not> converts (platform w) enc d (take k (drop off (sas_rows d)))
      then Some (Inl ReadstatError, w)
      else case body (frame d enc False (take k (drop off (sas_rows d))))
                  (meta_of d enc (length (take k (drop off (sas_rows d))))) s w of
             (Inl e, w') \<Rightarrow> Some (Inl e, w')
           | (Inr s', w') \<Rightarrow> chunk_loop body p enc k (length (sas_rows d)) (off + k) s' w')"
proof (cases "length (sas_rows d) \<le> off")
  case True
  with n show ?thesis by (subst chunk_loop.simps) simp
next
  case False
  then have "take k (drop off (sas_rows d)) \<noteq> []" using k by simp
  with False k show ?thesis
    by (subst chunk_loop.simps) (simp add: read_valid[OF src] limit_rows_def)
qed

lemma chunk_loop_collect:
  assumes src: "fs w p = Some (Reg True wr [Image d])"
    and k: "0 < k" and n: "sas_rows d \<noteq> []"
    and cv: "converts (platform w) enc d (sas_rows d)"
  shows "chunk_loop collect p enc k (length (sas_rows d)) off acc w =
     Some (Inr (acc @ map (frame d enc False) (chunks_of k (drop off (sas_rows d)))), w)"
proof (induction "length (sas_rows d) - off" arbitrary: off acc rule: less_induct)
  case less
  show ?case
  proof (cases "length (sas_rows d) \<le> off")
    case True
    then show ?thesis
      by (subst chunk_loop_step[OF src k n]) (simp add: chunks_of.simps)
  next
    case False
    then have lt: "length (sas_rows d) - (off + k) < length (sas_rows d) - off"
      using k by simp
    have ne: "drop off (sas_rows d) \<noteq> []" using False by simp
    have c: "chunks_of k (drop off (sas_rows d)) =
        take k (drop off (sas_rows d)) # chunks_of k (drop (off + k) (sas_rows d))"
      using k ne by (subst chunks_of.simps) (simp add: add.commute)
    show ?thesis
      using False converts_take_drop[OF cv, of k off]
      by (subst chunk_loop_step[OF src k n]) (simp add: collect_def less[OF lt] c)
  qed
qed

lemma read_in_chunks_collect:
  assumes src: "fs w (path self) = Some (Reg True wr [Image d])" and k: "0 < k"
    and cv0: "converts (platform w) None d []"
    and cv: "converts (platform w) (encoding self) d (sas_rows d)"
  shows "Sas_read_in_chunks collect self 0 k [] w =
     Some (Inr (map (frame d (encoding self) False) (chunks_of k (sas_rows d))), w)"
proof (cases "sas_rows d = []")
  case True
  have "chunk_loop collect (path self) (encoding self) k 0 0 [] w = Some (Inr [], w)"
    using True cv by (subst chunk_loop.simps) (simp add: read_valid[OF src] limit_rows_def)
  with True cv0 show ?thesis
    by (simp add: Sas_read_in_chunks_def read_file_in_chunks_def read_valid[OF src] meta_of_def
        chunks_of.simps)
next
  case False
  then show ?thesis
    using chunk_loop_collect[OF src k False cv, of 0 "[]"] cv0
    by (simp add: Sas_read_in_chunks_def read_file_in_chunks_def read_valid[OF src] meta_of_def)
qed

text \<open>
  On a dataset that converts under the object's encoding, reading in chunks of
  \<open>k \<ge> 1\<close> rows returns, leaves the world as it is, and yields the rows of the dataset
  in order, none twice, in chunks of at most \<open>k\<close> rows, as the reader materializes them
  without \<open>dates_as_pandas_datetime\<close>; \<open>read()\<close> returns the same rows materialized
  with it. The two agree on a dataset without date cells.
\<close>

lemma read_in_chunks_rows:
  assumes src: "fs w (path self) = Some (Reg True wr [Image d])" and k: "0 < k"
    and cv0: "converts (platform w) None d []"
    and cv: "converts (platform w) (encoding self) d (sas_rows d)"
  shows "\<exists>cs. Sas_read_in_chunks collect self 0 k [] w = Some (Inr cs, w) \<and>
      concat (map rows cs) = map (map (to_python (encoding self) False)) (sas_rows d) \<and>
      (\<forall>c \<in> set cs. length (rows c) \<le> k) \<and>
      Sas_read self 0 w =
        Inr (frame d (encoding self) True (sas_rows d),
             meta_of d (encoding self) (length (sas_rows d)))"
proof -
  let ?cs = "map (frame d (encoding self) False) (chunks_of k (sas_rows d))"
  have "concat (map rows ?cs) =
      concat (map (map (map (to_python (encoding self) False))) (chunks_of k (sas_rows d)))"
    by (simp add: comp_def)
  also have "\<dots> = map (map (to_python (encoding self) False)) (concat (chunks_of k (sas_rows d)))"
    by (simp add: map_concat)
  finally have c: "concat (map rows ?cs) =
      map (map (to_python (encoding self) False)) (sas_rows d)"
    by (simp add: chunks_of_concat[OF k])
  have l: "\<forall>c \<in> set ?cs. length (rows c) \<le> k"
    using chunks_of_length[of k "sas_rows d"] by auto
  have r: "Sas_read self 0 w =
      Inr (frame d (encoding self) True (sas_rows d),
           meta_of d (encoding self) (length (sas_rows d)))"
    using cv by (simp add: Sas_read_def read_valid[OF src] limit_rows_def)
  from read_in_chunks_collect[OF src k cv0 cv] c l r show ?thesis by blast
qed

lemma to_python_no_date: "\<not> is_date c \<Longrightarrow> to_python enc a c = to_python enc b c"
  by (cases c) auto

lemma read_in_chunks_roundtrip_no_dates:
  assumes src: "fs w (path self) = Some (Reg True wr [Image d])" and k: "0 < k"
    and cv0: "converts (platform w) None d []"
    and cv: "converts (platform w) (encoding self) d (sas_rows d)"
    and nd: "\<forall>r \<in> set (sas_rows d). \<forall>c \<in> set r. \<not> is_date c"
  shows "\<exists>cs df meta. Sas_read_in_chunks collect self 0 k [] w = Some (Inr cs, w) \<and>
      Sas_read self 0 w = Inr (df, meta) \<and> concat (map rows cs) = rows df"
proof -
  have "map (map (to_python (encoding self) False)) (sas_rows d) =
      map (map (to_python (encoding self) True)) (sas_rows d)"
    using nd by (auto intro!: map_cong to_python_no_date simp del: to_python.simps)
  with read_in_chunks_rows[OF src k cv0 cv] show ?thesis by auto
qed

lemma converts_usual_latin1 [simp]:
  "converts usual (Some ''latin1'') d rs" "converts usual None d rs"
proof -
  have c: "cell_decodes usual (Some ''latin1'') x" "cell_decodes usual None x" for x
    by (cases x; simp add: usual_def)+
  show "converts usual (Some ''latin1'') d rs" "converts usual None d rs"
    by (simp_all add: converts_def codec_known_def list_all_iff c) (simp_all add: usual_def)
qed

text \<open>
  Claim C1 fails on the code. \<open>read()\<close> passes \<open>dates_as_pandas_datetime=True\<close> to the
  reader and \<open>read_in_chunks()\<close> does not, so on the dataset with one date cell stored
  at \<open>d.sas7bdat\<close> the row of \<open>read()\<close> holds a pandas timestamp and the row of the
  only chunk holds a \<open>datetime.date\<close>.
\<close>

theorem read_in_chunks_dates_example:
  "fst (Sas_init ''d.sas7bdat'' (Some ''latin1'')
     \<lparr>fs = [''d.sas7bdat'' \<mapsto> Reg True True
        [Image \<lparr>col_names = [''day''], sas_rows = [[DateC 0]]\<rparr>]], opened = [], log = [],
      platform = usual\<rparr>) =
     Inr (File_attrs ''d.sas7bdat'' (Some ''latin1'')) \<and>
   Sas_read (File_attrs ''d.sas7bdat'' (Some ''latin1'')) 0
     \<lparr>fs = [''d.sas7bdat'' \<mapsto> Reg True True
        [Image \<lparr>col_names = [''day''], sas_rows = [[DateC 0]]\<rparr>]], opened = [], log = [],
      platform = usual\<rparr> =
     Inr (\<lparr>columns = [PyStr (Some ''latin1'') ''day''], rows = [[PyTimestamp 0]]\<rparr>,
          \<lparr>number_rows = 1, column_names = [PyStr (Some ''latin1'') ''day'']\<rparr>) \<and>
   Sas_read_in_chunks collect (File_attrs ''d.sas7bdat'' (Some ''latin1'')) 0 1 []
     \<lparr>fs = [''d.sas7bdat'' \<mapsto> Reg True True
        [Image \<lparr>col_names = [''day''], sas_rows = [[DateC 0]]\<rparr>]], opened = [], log = [],
      platform = usual\<rparr> =
     Some (Inr [\<lparr>columns = [PyStr (Some ''latin1'') ''day''], rows = [[PyDate 0]]\<rparr>],
       \<lparr>fs = [''d.sas7bdat'' \<mapsto> Reg True True
          [Image \<lparr>col_names = [''day''], sas_rows = [[DateC 0]]\<rparr>]], opened = [], log = [],
        platform = usual\<rparr>)"
proof -
  define S where "S = File_attrs ''d.sas7bdat'' (Some ''latin1'')"
  define W where "W = \<lparr>fs = [''d.sas7bdat'' \<mapsto> Reg True True
        [Image \<lparr>col_names = [''day''], sas_rows = [[DateC 0]]\<rparr>]], opened = [], log = [],
      platform = usual\<rparr>"
  have a: "path S = ''d.sas7bdat''" "encoding S = Some ''latin1''" "extension S = ''.sas7bdat''"
    by (simp_all add: S_def File_attrs_sel os_path_split_def os_path_splitext_def rfind_def Let_def)
  have pf: "platform W = usual" by (simp add: W_def)
  have src: "fs W (path S) = Some (Reg True True
      [Image \<lparr>col_names = [''day''], sas_rows = [[DateC 0]]\<rparr>])"
    by (simp add: W_def a)
  have i: "fst (Sas_init ''d.sas7bdat'' (Some ''latin1'') W) = Inr S"
    using a(3) by (simp add: Sas_init_def File_init_cases W_def S_def)
  have r: "Sas_read S 0 W =
     Inr (\<lparr>columns = [PyStr (Some ''latin1'') ''day''], rows = [[PyTimestamp 0]]\<rparr>,
          \<lparr>number_rows = 1, column_names = [PyStr (Some ''latin1'') ''day'']\<rparr>)"
    by (simp add: Sas_read_def read_valid[OF src] limit_rows_def frame_def meta_of_def a(2) pf)
  have c: "Sas_read_in_chunks collect S 0 1 [] W =
     Some (Inr [\<lparr>columns = [PyStr (Some ''latin1'') ''day''], rows = [[PyDate 0]]\<rparr>], W)"
    by (subst read_in_chunks_collect[OF src])
      (simp_all add: chunks_of.simps frame_def a pf)
  from i r c show ?thesis unfolding S_def W_def by simp
qed

lemma printed_append: "printed (xs @ ys) = printed xs @ printed ys"
  by (induction xs rule: printed.induct) auto

lemma writes_append: "writes (xs @ ys) = writes xs @ writes ys"
  by (induction xs rule: writes.induct) auto

subsection \<open>Conversion to CSV\<close>

lemma to_csv_body_cases:
  "to_csv_body self df meta h w =
     (let w1 = w\<lparr>log := log w @
                 [EvToCsv (csv_path self) df h (encoding self) ModeA CHR '';'' False]\<rparr>
      in if (case encoding self of None \<Rightarrow> False | Some e \<Rightarrow> \<not> writer_codec (platform w) e)
         then (Inl LookupError, w1)
         else (case fs w (csv_path self) of
                 None \<Rightarrow>
                   (case new_entry w (csv_path self) of
                      Some e \<Rightarrow> (Inl e, w1)
                    | None \<Rightarrow>
                        (Inr False, w1\<lparr>fs := (fs w)(csv_path self \<mapsto>
                           Reg (new_readable (platform w)) (new_writable (platform w))
                             (csv_lines df h (encoding self) CHR '';'' False))\<rparr>))
               | Some Dir \<Rightarrow> (Inl IsADirectoryError, w1)
               | Some (Reg r wr its) \<Rightarrow>
                   if wr then (Inr False, w1\<lparr>fs := (fs w)(csv_path self \<mapsto>
                       Reg r wr (its @ csv_lines df h (encoding self) CHR '';'' False))\<rparr>)
                   else (Inl PermissionError, w1)))"
  by (simp add: to_csv_body_def DataFrame_to_csv_def open_effect_def emit_def new_entry_def
      new_file_def Let_def split: option.splits node.splits)

lemma to_csv_body_meta: "to_csv_body self df m1 h w = to_csv_body self df m2 h w"
  by (simp add: to_csv_body_def)

text \<open>What one run of the loop body does, whatever its outcome.\<close>

lemma to_csv_body_frame:
  assumes "to_csv_body self df meta h w = (r, w1)"
  shows "log w1 = log w @ [EvToCsv (csv_path self) df h (encoding self) ModeA CHR '';'' False]"
    and "\<And>q. q \<noteq> csv_path self \<Longrightarrow> fs w1 q = fs w q"
    and "platform w1 = platform w" and "opened w1 = opened w"
    and "r = Inr s \<Longrightarrow> s = False \<and>
         items_at w1 (csv_path self) =
           items_at w (csv_path self) @ csv_lines df h (encoding self) CHR '';'' False"
  using assms
  by (auto simp: to_csv_body_cases Let_def items_at_def
      split: option.splits node.splits if_splits)

lemma to_csv_clean_cases:
  "to_csv_clean self w =
     (case fs w (csv_path self) of
        None \<Rightarrow> w\<lparr>log := log w @ [EvRemove (csv_path self)]\<rparr>
      | Some Dir \<Rightarrow> w\<lparr>log := log w @ [EvRemove (csv_path self)]\<rparr>
      | Some (Reg r wr its) \<Rightarrow>
          if may_unlink (platform w) (csv_path self) then
            w\<lparr>fs := (fs w)(csv_path self := None),
              log := log w @ [EvRemove (csv_path self),
                EvPrint (''Warning : csv file '' @ (name self @ ''.csv'') @
                         '' already existed and has been removed.'')]\<rparr>
          else w\<lparr>log := log w @ [EvRemove (csv_path self)]\<rparr>)"
  by (simp add: to_csv_clean_def os_remove_def emit_def print_def Let_def
      split: option.splits node.splits)

lemma clean_frame:
  "q \<noteq> csv_path self \<Longrightarrow> fs (to_csv_clean self w) q = fs w q"
  "platform (to_csv_clean self w) = platform w"
  "opened (to_csv_clean self w) = opened w"
  "writes (log (to_csv_clean self w)) = writes (log w)"
  by (simp_all add: to_csv_clean_cases writes_append split: option.splits node.splits)

text \<open>
  The loop of the conversion over a dataset with rows, from any offset and in any
  world: it ends; it leaves every path but the target as it was; its \<open>to_csv\<close> calls
  write the first chunks from the offset on, in order, the header being asked for as the
  loop's state says in the first call and never after; and when no error ends it, it has
  written every chunk and the target holds the lines of all of them after what it held.
\<close>

lemma to_csv_loop_general:
  assumes k: "0 < k" and n: "sas_rows d \<noteq> []" and neq: "csv_path self \<noteq> path self"
    and src: "fs w (path self) = Some (Reg True wr [Image d])"
  shows "\<exists>r w' m.
     chunk_loop (to_csv_body self) (path self) (encoding self) k (length (sas_rows d)) off h w =
       Some (r, w') \<and>
     (\<forall>q. q \<noteq> csv_path self \<longrightarrow> fs w' q = fs w q) \<and>
     platform w' = platform w \<and> opened w' = opened w \<and>
     printed (log w') = printed (log w) \<and>
     writes (log w') = writes (log w) @
       write_events (csv_path self) (encoding self) h
         (take m (map (frame d (encoding self) False) (chunks_of k (drop off (sas_rows d))))) \<and>
     (\<not> isl r \<longrightarrow>
        m = length (chunks_of k (drop off (sas_rows d))) \<and>
        items_at w' (csv_path self) =
          items_at w (csv_path self) @
          written_lines (encoding self) h
            (map (frame d (encoding self) False) (chunks_of k (drop off (sas_rows d)))))"
  using src
proof (induction "length (sas_rows d) - off" arbitrary: off h w rule: less_induct)
  case less
  note src = less.prems
  let ?c0 = "take k (drop off (sas_rows d))"
  let ?f0 = "frame d (encoding self) False ?c0"
  show ?case
  proof (cases "length (sas_rows d) \<le> off")
    case True
    then have "chunk_loop (to_csv_body self) (path self) (encoding self) k
        (length (sas_rows d)) off h w = Some (Inr h, w)"
      by (subst chunk_loop_step[OF src k n]) simp
    moreover have "chunks_of k (drop off (sas_rows d)) = []"
      using True by (subst chunks_of.simps) simp
    ultimately show ?thesis
      by (intro exI[of _ "Inr h"] exI[of _ w] exI[of _ 0]) simp
  next
    case False
    then have lt: "length (sas_rows d) - (off + k) < length (sas_rows d) - off"
      using k by simp
    have ne: "drop off (sas_rows d) \<noteq> []" using False by simp
    have c: "chunks_of k (drop off (sas_rows d)) =
        ?c0 # chunks_of k (drop (off + k) (sas_rows d))"
      using k ne by (subst chunks_of.simps) (simp add: add.commute)
    show ?thesis
    proof (cases "converts (platform w) (encoding self) d ?c0")
      case nc: False
      have "chunk_loop (to_csv_body self) (path self) (encoding self) k
          (length (sas_rows d)) off h w = Some (Inl ReadstatError, w)"
        using False nc by (subst chunk_loop_step[OF src k n]) simp
      then show ?thesis
        by (intro exI[of _ "Inl ReadstatError"] exI[of _ w] exI[of _ 0]) simp
    next
      case cv: True
      obtain r1 w1 where b0: "to_csv_body self ?f0
          (meta_of d (encoding self) (length ?c0)) h w = (r1, w1)"
        by (cases "to_csv_body self ?f0 (meta_of d (encoding self) (length ?c0)) h w") auto
      have b: "to_csv_body self ?f0 meta h w = (r1, w1)" for meta
        by (simp only: to_csv_body_meta[of self ?f0 meta h w
              "meta_of d (encoding self) (length ?c0)"] b0)
      note fr = to_csv_body_frame[OF b0]
      have ev: "writes (log w1) = writes (log w) @ write_events (csv_path self) (encoding self) h [?f0]"
        by (simp add: fr(1) writes_append)
      have pr: "printed (log w1) = printed (log w)"
        by (simp add: fr(1) printed_append)
      show ?thesis
      proof (cases r1)
        case (Inl e)
        have "chunk_loop (to_csv_body self) (path self) (encoding self) k
            (length (sas_rows d)) off h w = Some (Inl e, w1)"
          using False cv by (subst chunk_loop_step[OF src k n]) (simp add: b Inl)
        then show ?thesis
          using fr(2,3,4) ev pr
          by (intro exI[of _ "Inl e"] exI[of _ w1] exI[of _ "Suc 0"]) (simp add: c)
      next
        case (Inr s)
        from fr(5)[OF Inr] have s: "s = False"
          and it: "items_at w1 (csv_path self) =
            items_at w (csv_path self) @ csv_lines ?f0 h (encoding self) CHR '';'' False"
          by simp_all
        have src1: "fs w1 (path self) = Some (Reg True wr [Image d])"
          using src neq fr(2)[of "path self"] by simp
        from less.hyps[OF lt src1, of False]
        obtain r w' m where
          l: "chunk_loop (to_csv_body self) (path self) (encoding self) k
                (length (sas_rows d)) (off + k) False w1 = Some (r, w')"
          and f: "\<forall>q. q \<noteq> csv_path self \<longrightarrow> fs w' q = fs w1 q"
          and pf: "platform w' = platform w1" and op: "opened w' = opened w1"
          and p': "printed (log w') = printed (log w1)"
          and wr': "writes (log w') = writes (log w1) @
             write_events (csv_path self) (encoding self) False
               (take m (map (frame d (encoding self) False)
                  (chunks_of k (drop (off + k) (sas_rows d)))))"
          and ok: "\<not> isl r \<longrightarrow>
             m = length (chunks_of k (drop (off + k) (sas_rows d))) \<and>
             items_at w' (csv_path self) =
               items_at w1 (csv_path self) @
               written_lines (encoding self) False
                 (map (frame d (encoding self) False)
                    (chunks_of k (drop (off + k) (sas_rows d))))"
          by blast
        have "chunk_loop (to_csv_body self) (path self) (encoding self) k
            (length (sas_rows d)) off h w = Some (r, w')"
          using False cv by (subst chunk_loop_step[OF src k n]) (simp add: b Inr s l)
        then show ?thesis
          using f fr(2,3,4) pf op p' pr wr' ev ok it
          by (intro exI[of _ r] exI[of _ w'] exI[of _ "Suc m"]) (simp add: c)
      qed
    qed
  qed
qed



lemma enumerate_Suc_map:
  "map (\<lambda>(i, c). f (i = 0) c) (enumerate (Suc n) xs) = map (f False) xs"
  by (induction xs arbitrary: n) auto



lemma last_join: "b \<noteq> [] \<Longrightarrow> last (os_path_join a b) = last b"
  by (simp add: os_path_join_def)

lemma csv_path_neq:
  assumes "extension (File_attrs p enc) = ''.sas7bdat''"
  shows "csv_path (File_attrs p enc) \<noteq> path (File_attrs p enc)"
proof -
  obtain h t where p: "p = h @ t"
    and d: "os_path_split p =
         (if h = replicate (length h) CHR ''/'' then h else rstrip CHR ''/'' h, t)"
    using split_concat[of p] by blast
  define n where "n = fst (os_path_splitext t)"
  have "n @ snd (os_path_splitext t) = t"
    unfolding n_def by (rule splitext_concat)
  moreover have "snd (os_path_splitext t) = ''.sas7bdat''"
    using assms by (simp add: File_attrs_sel d)
  ultimately have "h @ n @ ''.sas7bdat'' = p"
    by (simp only: p)
  then have "last p = last (h @ n @ ''.sas7bdat'')" by simp
  then have "last p = CHR ''t''" by simp
  moreover have "last (csv_path (File_attrs p enc)) = CHR ''v''"
    by (simp add: csv_path_def last_join)
  ultimately have "last (csv_path (File_attrs p enc)) \<noteq> last p" by simp
  then have "csv_path (File_attrs p enc) \<noteq> p" by (rule contrapos_nn) (rule arg_cong)
  then show ?thesis by (simp add: File_attrs_sel)
qed


lemma written_lines_map:
  "written_lines enc False (map g cs) =
     concat (map (\<lambda>c. csv_lines (g c) False enc CHR '';'' False) cs)"
  by (induction cs) auto

lemma converted_written:
  "converted self d k = written_lines (encoding self) True (chunk_frames self d k)"
proof (cases "chunks_of k (sas_rows d)")
  case Nil
  then show ?thesis by (simp add: converted_def chunk_frames_def)
next
  case (Cons c cs)
  have "map (\<lambda>(i, c). csv_lines (frame d (encoding self) False c) (i = 0) (encoding self) CHR '';'' False)
          (enumerate (Suc 0) cs) =
        map (\<lambda>c. csv_lines (frame d (encoding self) False c) False (encoding self) CHR '';'' False) cs"
    using enumerate_Suc_map[of "\<lambda>b c. csv_lines (frame d (encoding self) False c) b (encoding self) CHR '';'' False" 0 cs]
    by simp
  then show ?thesis
    by (simp add: converted_def chunk_frames_def Cons written_lines_map)
qed

lemma read_same_file:
  "fs w1 p = fs w p \<Longrightarrow> platform w1 = platform w \<Longrightarrow>
   read_sas7bdat w1 p m dates enc lim off = read_sas7bdat w p m dates enc lim off"
  by (simp add: read_sas7bdat_def Let_def
      split: option.splits node.splits list.splits item.splits)

lemma read_ok_valid:
  assumes "read_sas7bdat w p m dates enc lim off = Inr x"
  shows "\<exists>wr d. fs w p = Some (Reg True wr [Image d])"
  using assms
  by (auto simp: read_sas7bdat_def split: option.splits node.splits if_splits list.splits item.splits)

lemma Sas_init_success:
  assumes "Sas_init p enc w0 = (Inr self, w1)"
  shows "self = File_attrs p enc" and "extension self = ''.sas7bdat''"
    and "csv_path self \<noteq> path self" and "File_init p enc w0 = (Inr self, w1)"
proof -
  from assms show i: "File_init p enc w0 = (Inr self, w1)"
    and e: "extension self = ''.sas7bdat''"
    by (auto simp: Sas_init_def split: prod.splits sum.splits if_splits)
  from i show s: "self = File_attrs p enc" by (rule File_init_success)
  from e s have "extension (File_attrs p enc) = ''.sas7bdat''" by simp
  then have "csv_path (File_attrs p enc) \<noteq> path (File_attrs p enc)" by (rule csv_path_neq)
  then show "csv_path self \<noteq> path self" by (simp add: s)
qed

lemma fs_print [simp]: "fs (print s w) = fs w"
  by (simp add: print_def emit_def)

lemma log_print [simp]: "log (print s w) = log w @ [EvPrint s]"
  by (simp add: print_def emit_def)

lemma items_at_print [simp]: "items_at (print s w) q = items_at w q"
  by (simp add: items_at_def)

lemma Sas_to_csv_read_error:
  assumes neq: "csv_path self \<noteq> path self"
    and err: "read_sas7bdat w (path self) True False None 0 0 = Inl e"
  shows "Sas_to_csv self w = Some (Inl e, to_csv_clean self w)"
proof -
  have "fs (to_csv_clean self w) (path self) = fs w (path self)"
    using neq by (simp add: clean_frame)
  then have "read_sas7bdat (to_csv_clean self w) (path self) True False None 0 0 =
      read_sas7bdat w (path self) True False None 0 0"
    by (rule read_same_file) (simp add: clean_frame)
  then have r: "read_sas7bdat (to_csv_clean self w) (path self) True False None 0 0 = Inl e"
    by (simp only: err)
  have "Sas_read_in_chunks (to_csv_body self) self 0 10000 True (to_csv_clean self w) =
      Some (Inl e, to_csv_clean self w)"
    by (simp add: Sas_read_in_chunks_def read_file_in_chunks_def r)
  then show ?thesis
    by (simp add: Sas_to_csv_def)
qed

text \<open>The conversion of a dataset, in terms of the loop.\<close>

lemma Sas_to_csv_dataset:
  assumes src: "fs w (path self) = Some (Reg True wr [Image d])"
    and neq: "csv_path self \<noteq> path self"
    and cv0: "converts (platform w) None d []"
  shows "Sas_to_csv self w =
     (if sas_rows d = [] then
        (if converts (platform w) (encoding self) d []
         then Some (Inr (), print (''Sas file '' @ file' self @ '' converted to csv file '' @
                                   (name self @ ''.csv'')) (to_csv_clean self w))
         else Some (Inl ReadstatError, to_csv_clean self w))
      else
        (case chunk_loop (to_csv_body self) (path self) (encoding self) 10000
                (length (sas_rows d)) 0 True (to_csv_clean self w) of
           None \<Rightarrow> None
         | Some (Inl e, w2) \<Rightarrow> Some (Inl e, w2)
         | Some (Inr h, w2) \<Rightarrow>
             Some (Inr (), print (''Sas file '' @ file' self @ '' converted to csv file '' @
                                  (name self @ ''.csv'')) w2)))"
proof -
  define w1 where "w1 = to_csv_clean self w"
  have src1: "fs w1 (path self) = Some (Reg True wr [Image d])"
    using src neq by (simp add: w1_def clean_frame)
  have pf: "platform w1 = platform w" by (simp add: w1_def clean_frame)
  show ?thesis
  proof (cases "sas_rows d = []")
    case True
    have "chunk_loop (to_csv_body self) (path self) (encoding self) 10000 0 0 True w1 =
        (if converts (platform w) (encoding self) d [] then Some (Inr True, w1)
         else Some (Inl ReadstatError, w1))"
      using True by (subst chunk_loop.simps) (simp add: read_valid[OF src1] limit_rows_def pf)
    then show ?thesis
      using True cv0
      by (simp add: Sas_to_csv_def Sas_read_in_chunks_def read_file_in_chunks_def
          read_valid[OF src1] meta_of_def pf flip: w1_def)
  next
    case False
    have "Sas_read_in_chunks (to_csv_body self) self 0 10000 True w1 =
        chunk_loop (to_csv_body self) (path self) (encoding self) 10000 (length (sas_rows d)) 0 True w1"
      using False cv0
      by (simp add: Sas_read_in_chunks_def read_file_in_chunks_def read_valid[OF src1] meta_of_def pf)
    then show ?thesis
      using False by (simp add: Sas_to_csv_def flip: w1_def)
  qed
qed

lemma chunk_frames_empty: "sas_rows d = [] \<Longrightarrow> chunk_frames self d k = []"
  by (simp add: chunk_frames_def chunks_of.simps)

lemma converted_empty: "sas_rows d = [] \<Longrightarrow> converted self d k = []"
  by (simp add: converted_written chunk_frames_empty)

text \<open>
  The conversion in any world, for an object whose target differs from its source: it
  returns; only the target path can change; its \<open>to_csv\<close> calls write a first part of
  the chunks of the dataset, all of them when it returns without error, and then the
  target holds the converted lines after what the cleaning left there.
\<close>

lemma Sas_to_csv_general:
  assumes neq: "csv_path self \<noteq> path self"
  shows "\<exists>r w' cs. Sas_to_csv self w = Some (r, w') \<and>
     (\<forall>q. q \<noteq> csv_path self \<longrightarrow> fs w' q = fs w q) \<and>
     platform w' = platform w \<and> opened w' = opened w \<and>
     printed (log w') = printed (log (to_csv_clean self w)) @
       (if r = Inr () then [''Sas file '' @ file' self @ '' converted to csv file '' @
                            (name self @ ''.csv'')] else []) \<and>
     writes (log w') = writes (log w) @
       write_events (csv_path self) (encoding self) True cs \<and>
     (\<forall>wr d. fs w (path self) = Some (Reg True wr [Image d]) \<longrightarrow>
        (\<exists>m. cs = take m (chunk_frames self d 10000)) \<and>
        (r = Inr () \<longrightarrow>
           cs = chunk_frames self d 10000 \<and>
           items_at w' (csv_path self) =
             items_at (to_csv_clean self w) (csv_path self) @ converted self d 10000)) \<and>
     (r = Inr () \<longrightarrow> (\<exists>wr d. fs w (path self) = Some (Reg True wr [Image d])))"
proof (cases "read_sas7bdat w (path self) True False None 0 0")
  case (Inl e)
  have "Sas_to_csv self w = Some (Inl e, to_csv_clean self w)"
    by (rule Sas_to_csv_read_error[OF neq Inl])
  then show ?thesis
    by (intro exI[of _ "Inl e"] exI[of _ "to_csv_clean self w"] exI[of _ "[]"])
      (auto simp: clean_frame intro: exI[of _ 0])
next
  case (Inr x)
  then obtain wr d where src: "fs w (path self) = Some (Reg True wr [Image d])"
    using read_ok_valid by blast
  from Inr have cv0: "converts (platform w) None d []"
    by (simp add: read_valid[OF src] split: if_splits)
  define w1 where "w1 = to_csv_clean self w"
  have src1: "fs w1 (path self) = Some (Reg True wr [Image d])"
    using src neq by (simp add: w1_def clean_frame)
  note D = Sas_to_csv_dataset[OF src neq cv0, folded w1_def]
  have same: "wr' = wr \<and> d' = d" if "fs w (path self) = Some (Reg True wr' [Image d'])" for wr' d'
    using that src by simp
  show ?thesis
  proof (cases "sas_rows d = []")
    case True
    show ?thesis
    proof (cases "converts (platform w) (encoding self) d []")
      case True
      with \<open>sas_rows d = []\<close> D have "Sas_to_csv self w =
          Some (Inr (), print (''Sas file '' @ file' self @ '' converted to csv file '' @
                               (name self @ ''.csv'')) w1)"
        by simp
      then show ?thesis
        using \<open>sas_rows d = []\<close> src
        by (intro exI[of _ "Inr ()"] exI[of _ "print (''Sas file '' @ file' self @
              '' converted to csv file '' @ (name self @ ''.csv'')) w1"] exI[of _ "[]"])
          (auto simp: w1_def clean_frame writes_append printed_append chunk_frames_empty
             converted_empty print_def emit_def items_at_def)
    next
      case False
      with \<open>sas_rows d = []\<close> D have "Sas_to_csv self w = Some (Inl ReadstatError, w1)"
        by simp
      then show ?thesis
        using \<open>sas_rows d = []\<close>
        by (intro exI[of _ "Inl ReadstatError"] exI[of _ w1] exI[of _ "[]"])
          (auto simp: w1_def clean_frame chunk_frames_empty)
    qed
  next
    case False
    have k: "0 < (10000::nat)" by simp
    from to_csv_loop_general[OF k False neq src1, of 0 True]
    obtain r w2 m where
      l: "chunk_loop (to_csv_body self) (path self) (encoding self) 10000
            (length (sas_rows d)) 0 True w1 = Some (r, w2)"
      and f: "\<forall>q. q \<noteq> csv_path self \<longrightarrow> fs w2 q = fs w1 q"
      and pf: "platform w2 = platform w1" and op: "opened w2 = opened w1"
      and pr2: "printed (log w2) = printed (log w1)"
      and wr2: "writes (log w2) = writes (log w1) @
         write_events (csv_path self) (encoding self) True (take m (chunk_frames self d 10000))"
      and ok: "\<not> isl r \<longrightarrow>
         m = length (chunks_of 10000 (sas_rows d)) \<and>
         items_at w2 (csv_path self) =
           items_at w1 (csv_path self) @ converted self d 10000"
      by (auto simp: chunk_frames_def converted_written)
    have f': "\<forall>q. q \<noteq> csv_path self \<longrightarrow> fs w2 q = fs w q"
      using f by (simp add: w1_def clean_frame)
    have pf': "platform w2 = platform w" using pf by (simp add: w1_def clean_frame)
    have op': "opened w2 = opened w" using op by (simp add: w1_def clean_frame)
    have wr': "writes (log w2) = writes (log w) @
         write_events (csv_path self) (encoding self) True (take m (chunk_frames self d 10000))"
      using wr2 by (simp add: w1_def clean_frame)
    show ?thesis
    proof (cases r)
      case (Inl e)
      with False D l have s: "Sas_to_csv self w = Some (Inl e, w2)" by simp
      have "\<forall>wr d'. fs w (path self) = Some (Reg True wr [Image d']) \<longrightarrow>
          (\<exists>m'. take m (chunk_frames self d 10000) = take m' (chunk_frames self d' 10000))"
        using src by auto
      moreover have "printed (log w2) = printed (log (to_csv_clean self w)) @
          (if (Inl e :: py_error + unit) = Inr () then [''Sas file '' @ file' self @
             '' converted to csv file '' @ (name self @ ''.csv'')] else [])"
        using pr2 by (simp add: w1_def)
      ultimately show ?thesis
        using s f' pf' op' wr'
        by (intro exI[of _ "Inl e"] exI[of _ w2] exI[of _ "take m (chunk_frames self d 10000)"])
          simp
    next
      case (Inr h)
      define w3 where "w3 = print (''Sas file '' @ file' self @ '' converted to csv file '' @
                               (name self @ ''.csv'')) w2"
      from Inr False D l have s: "Sas_to_csv self w = Some (Inr (), w3)"
        by (simp add: w3_def)
      from ok Inr have m: "take m (chunk_frames self d 10000) = chunk_frames self d 10000"
        and it: "items_at w2 (csv_path self) =
           items_at w1 (csv_path self) @ converted self d 10000"
        by (simp_all add: chunk_frames_def)
      have f3: "\<forall>q. q \<noteq> csv_path self \<longrightarrow> fs w3 q = fs w q"
        using f' by (simp add: w3_def)
      have pf3: "platform w3 = platform w" using pf' by (simp add: w3_def print_def emit_def)
      have op3: "opened w3 = opened w" using op' by (simp add: w3_def print_def emit_def)
      have pr3: "printed (log w3) = printed (log (to_csv_clean self w)) @
          (if (Inr () :: py_error + unit) = Inr () then [''Sas file '' @ file' self @
             '' converted to csv file '' @ (name self @ ''.csv'')] else [])"
        using pr2 by (simp add: w3_def w1_def printed_append)
      have wr3: "writes (log w3) = writes (log w) @
         write_events (csv_path self) (encoding self) True (chunk_frames self d 10000)"
        using wr' by (simp add: w3_def m writes_append)
      have it3: "items_at w3 (csv_path self) =
           items_at (to_csv_clean self w) (csv_path self) @ converted self d 10000"
        using it by (simp add: w3_def w1_def)
      have a: "\<forall>wr d'. fs w (path self) = Some (Reg True wr [Image d']) \<longrightarrow>
          (\<exists>m'. chunk_frames self d 10000 = take m' (chunk_frames self d' 10000)) \<and>
          (chunk_frames self d 10000 = chunk_frames self d' 10000 \<and>
           items_at w3 (csv_path self) =
             items_at (to_csv_clean self w) (csv_path self) @ converted self d' 10000)"
        using src it3 m by (auto intro: exI[of _ m])
      have b: "\<exists>wr d. fs w (path self) = Some (Reg True wr [Image d])"
        using src by blast
      from s f3 pf3 op3 pr3 wr3 a b show ?thesis
        by (intro exI[of _ "Inr ()"] exI[of _ w3] exI[of _ "chunk_frames self d 10000"])
          blast
    qed
  qed
qed

lemma Sas_to_csv_terminates:
  assumes neq: "csv_path self \<noteq> path self"
  shows "\<exists>y. Sas_to_csv self w = Some y"
  using Sas_to_csv_general[OF neq, of w] by auto

lemma Sas_to_csv_keeps_source:
  assumes neq: "csv_path self \<noteq> path self"
    and r: "Sas_to_csv self w = Some y"
  shows "fs (snd y) (path self) = fs w (path self)"
proof -
  from Sas_to_csv_general[OF neq, of w] obtain r' w' where
    "Sas_to_csv self w = Some (r', w')" and "\<forall>q. q \<noteq> csv_path self \<longrightarrow> fs w' q = fs w q"
    by blast
  with r neq show ?thesis by (metis option.inject snd_conv)
qed







lemma Sas_to_csv_empty:
  assumes src: "fs w (path self) = Some (Reg True wr [Image d])"
    and neq: "csv_path self \<noteq> path self"
    and e: "sas_rows d = []"
    and cv0: "converts (platform w) None d []"
    and cv: "converts (platform w) (encoding self) d []"
  shows "Sas_to_csv self w =
     Some (Inr (), print (''Sas file '' @ file' self @ '' converted to csv file '' @
                          (name self @ ''.csv'')) (to_csv_clean self w))"
  using e cv by (simp add: Sas_to_csv_dataset[OF src neq cv0])

text \<open>
  Claim C3 fails on the code. For the empty dataset stored at \<open>e.sas7bdat\<close> the reader
  yields no chunk, the loop body never runs and no file is written: \<open>to_csv()\<close> returns
  and prints that the file was converted, but nothing exists at \<open>e.csv\<close>; a file that
  was there before is removed and not written again.
\<close>

theorem Sas_to_csv_empty_example:
  "Sas_to_csv (File_attrs ''e.sas7bdat'' (Some ''latin1''))
     \<lparr>fs = [''e.sas7bdat'' \<mapsto> Reg True True [Image \<lparr>col_names = [''a''], sas_rows = []\<rparr>]],
      opened = [], log = [], platform = usual\<rparr> =
   Some (Inr (),
     \<lparr>fs = [''e.sas7bdat'' \<mapsto> Reg True True [Image \<lparr>col_names = [''a''], sas_rows = []\<rparr>]],
      opened = [],
      log = [EvRemove ''e.csv'',
             EvPrint ''Sas file e.sas7bdat converted to csv file e.csv''],
      platform = usual\<rparr>) \<and>
   Sas_to_csv (File_attrs ''e.sas7bdat'' (Some ''latin1''))
     \<lparr>fs = [''e.sas7bdat'' \<mapsto> Reg True True [Image \<lparr>col_names = [''a''], sas_rows = []\<rparr>],
            ''e.csv'' \<mapsto> Reg True True [Line (Some ''latin1'') CHR '';'' [PyStr (Some ''latin1'') ''a'']]],
      opened = [], log = [], platform = usual\<rparr> =
   Some (Inr (),
     \<lparr>fs = [''e.sas7bdat'' \<mapsto> Reg True True [Image \<lparr>col_names = [''a''], sas_rows = []\<rparr>]],
      opened = [],
      log = [EvRemove ''e.csv'',
             EvPrint ''Warning : csv file e.csv already existed and has been removed.'',
             EvPrint ''Sas file e.sas7bdat converted to csv file e.csv''],
      platform = usual\<rparr>)"
proof -
  define S where "S = File_attrs ''e.sas7bdat'' (Some ''latin1'')"
  define D where "D = \<lparr>col_names = [''a''], sas_rows = []\<rparr>"
  have a: "path S = ''e.sas7bdat''" "file' S = ''e.sas7bdat''" "name S = ''e''"
    "directory S = []" "extension S = ''.sas7bdat''" "encoding S = Some ''latin1''"
    by (simp_all add: S_def File_attrs_sel os_path_split_def os_path_splitext_def rfind_def Let_def)
  have cp: "csv_path S = ''e.csv''"
    by (simp add: csv_path_def os_path_join_def a)
  have neq: "csv_path S \<noteq> path S" by (simp add: cp a)
  have e: "sas_rows D = []" by (simp add: D_def)
  have mu: "may_unlink usual q" for q by (simp add: usual_def)
  have 1: "Sas_to_csv S
     \<lparr>fs = [''e.sas7bdat'' \<mapsto> Reg True True [Image D]],
      opened = [], log = [], platform = usual\<rparr> =
   Some (Inr (),
     \<lparr>fs = [''e.sas7bdat'' \<mapsto> Reg True True [Image D]],
      opened = [],
      log = [EvRemove ''e.csv'',
             EvPrint ''Sas file e.sas7bdat converted to csv file e.csv''],
      platform = usual\<rparr>)"
    by (subst Sas_to_csv_empty[OF _ neq e, where wr = True])
      (simp_all add: a cp to_csv_clean_cases print_def emit_def)
  have 2: "Sas_to_csv S
     \<lparr>fs = [''e.sas7bdat'' \<mapsto> Reg True True [Image D],
            ''e.csv'' \<mapsto> Reg True True [Line (Some ''latin1'') CHR '';'' [PyStr (Some ''latin1'') ''a'']]],
      opened = [], log = [], platform = usual\<rparr> =
   Some (Inr (),
     \<lparr>fs = [''e.sas7bdat'' \<mapsto> Reg True True [Image D]],
      opened = [],
      log = [EvRemove ''e.csv'',
             EvPrint ''Warning : csv file e.csv already existed and has been removed.'',
             EvPrint ''Sas file e.sas7bdat converted to csv file e.csv''],
      platform = usual\<rparr>)"
    by (subst Sas_to_csv_empty[OF _ neq e, where wr = True])
      (simp_all add: a cp to_csv_clean_cases print_def emit_def fun_upd_twist mu)
  from 1 2 show ?thesis unfolding S_def D_def by simp
qed

lemma to_csv_body_dir:
  assumes "fs w (csv_path self) = Some Dir"
    and "case encoding self of None \<Rightarrow> True | Some e \<Rightarrow> writer_codec (platform w) e"
  shows "to_csv_body self df meta h w =
     (Inl IsADirectoryError, w\<lparr>log := log w @
        [EvToCsv (csv_path self) df h (encoding self) ModeA CHR '';'' False]\<rparr>)"
proof -
  from assms(2) have c: "\<not> (case encoding self of None \<Rightarrow> False
        | Some e \<Rightarrow> \<not> writer_codec (platform w) e)"
    by (auto split: option.splits)
  show ?thesis using c by (simp add: to_csv_body_cases assms(1) Let_def)
qed

lemma to_csv_body_absent:
  assumes "fs w (csv_path self) = None" and "new_entry w (csv_path self) = None"
    and "case encoding self of None \<Rightarrow> True | Some e \<Rightarrow> writer_codec (platform w) e"
  shows "to_csv_body self df meta h w =
     (Inr False, w\<lparr>log := log w @
          [EvToCsv (csv_path self) df h (encoding self) ModeA CHR '';'' False],
        fs := (fs w)(csv_path self \<mapsto>
          Reg (new_readable (platform w)) (new_writable (platform w))
            (csv_lines df h (encoding self) CHR '';'' False))\<rparr>)"
proof -
  from assms(3) have c: "\<not> (case encoding self of None \<Rightarrow> False
        | Some e \<Rightarrow> \<not> writer_codec (platform w) e)"
    by (auto split: option.splits)
  show ?thesis using c by (simp add: to_csv_body_cases assms(1,2) Let_def)
qed







lemma converts_may_unlink [simp]:
  "converts (pf\<lparr>may_unlink := f\<rparr>) enc d rs = converts pf enc d rs"
proof -
  have "cell_decodes (pf\<lparr>may_unlink := f\<rparr>) enc x = cell_decodes pf enc x" for x
    by (cases x) simp_all
  then have c: "cell_decodes (pf\<lparr>may_unlink := f\<rparr>) enc = cell_decodes pf enc"
    by (rule ext)
  show ?thesis by (simp add: converts_def codec_known_def c split: option.splits)
qed




subsection \<open>Sequences of method calls\<close>

lemma builtin_open_regular:
  "is_regular w q \<Longrightarrow> is_regular (snd (builtin_open p m w)) q"
  by (cases m)
    (auto simp: is_regular_def builtin_open_def open_effect_def emit_def new_file_def Let_def
      split: option.splits node.splits if_splits)

lemma File_create_regular:
  "is_regular w q \<Longrightarrow> is_regular (snd (File_create self w)) q"
  by (auto simp: is_regular_def File_create_cases split: option.splits node.splits)

lemma chunk_loop_collect_world:
  assumes "chunk_loop body p enc k lim off acc w = Some y"
  shows "body = collect \<longrightarrow> snd y = w"
proof (rule chunk_loop.raw_induct
    [where P = "\<lambda>body p enc k lim off s w y. body = collect \<longrightarrow> snd y = w", OF _ assms])
  fix f :: "(dataframe \<Rightarrow> metadata \<Rightarrow> dataframe list \<Rightarrow> dataframe list io) \<Rightarrow> string \<Rightarrow>
      string option \<Rightarrow> nat \<Rightarrow> nat \<Rightarrow> nat \<Rightarrow> dataframe list \<Rightarrow> world \<Rightarrow>
      ((py_error + dataframe list) \<times> world) option"
    and body p enc chunksize limit offset s w y
  assume IH: "\<And>body p enc chunksize limit offset s w y.
      f body p enc chunksize limit offset s w = Some y \<Longrightarrow> body = collect \<longrightarrow> snd y = w"
    and step: "(if limit \<noteq> 0 \<and> limit \<le> offset then Some (Inr s, w)
      else case read_sas7bdat w p False False enc chunksize offset of
           Inl e \<Rightarrow> Some (Inl e, w)
           | Inr (df, meta) \<Rightarrow>
               if rows df = [] then Some (Inr s, w)
               else case body df meta s w of (Inl e, w') \<Rightarrow> Some (Inl e, w')
                    | (Inr s', w') \<Rightarrow> f body p enc chunksize limit (offset + chunksize) s' w') =
      Some y"
  show "body = collect \<longrightarrow> snd y = w"
  proof
    assume b: "body = collect"
    from step show "snd y = w"
      unfolding b
      by (auto simp: collect_def split: if_splits sum.splits prod.splits dest: IH)
  qed
qed

lemma read_in_chunks_collect_world:
  "Sas_read_in_chunks collect self n k acc w = Some y \<Longrightarrow> snd y = w"
  by (auto simp: Sas_read_in_chunks_def read_file_in_chunks_def Let_def
      split: sum.splits prod.splits dest: chunk_loop_collect_world)

lemma run_call_regular:
  assumes "is_regular w (path self)" and "c \<noteq> CallRemove"
    and "file_call c \<or> csv_path self \<noteq> path self"
    and "run_call self c w = Some w'"
  shows "is_regular w' (path self)"
proof (cases c)
  case (CallOpen m)
  with assms show ?thesis by (auto simp: File_open_def builtin_open_regular)
next
  case CallCreate
  with assms show ?thesis by (auto simp: File_create_regular)
next
  case CallRemove
  with assms show ?thesis by simp
next
  case (CallRead n)
  with assms show ?thesis by auto
next
  case (CallReadInChunks n k)
  with assms show ?thesis by (auto dest: read_in_chunks_collect_world)
next
  case CallToCsv
  with assms have neq: "csv_path self \<noteq> path self" by simp
  from CallToCsv assms(4) obtain y where y: "Sas_to_csv self w = Some y" "w' = snd y"
    by auto
  from Sas_to_csv_keeps_source[OF neq y(1)] assms(1) y(2) show ?thesis
    by (simp add: is_regular_def)
qed

lemma run_calls_regular:
  assumes "is_regular w (path self)" and "CallRemove \<notin> set cs"
    and "list_all file_call cs \<or> csv_path self \<noteq> path self"
    and "run_calls self cs w = Some w'"
  shows "is_regular w' (path self)"
  using assms
proof (induction cs arbitrary: w)
  case Nil
  then show ?case by simp
next
  case (Cons c cs)
  from Cons.prems(4) obtain w1 where s: "run_call self c w = Some w1"
    and t: "run_calls self cs w1 = Some w'"
    by (auto split: option.splits)
  have "is_regular w1 (path self)"
    using Cons.prems(1,2,3) s by (intro run_call_regular[of w self c w1]) auto
  moreover have "CallRemove \<notin> set cs" using Cons.prems(2) by simp
  moreover have "list_all file_call cs \<or> csv_path self \<noteq> path self"
    using Cons.prems(3) by auto
  ultimately show ?case using t by (rule Cons.IH)
qed

lemma File_remove_regular:
  "is_regular w (path self) \<Longrightarrow>
   File_remove self w =
     (if may_unlink (platform w) (path self)
      then (Inr (), w\<lparr>fs := (fs w)(path self := None), log := log w @ [EvRemove (path self)]\<rparr>)
      else (Inl PermissionError, w\<lparr>log := log w @ [EvRemove (path self)]\<rparr>))"
  by (auto simp: is_regular_def File_remove_def os_remove_def emit_def Let_def
      split: option.splits node.splits)

text \<open>
  Claim C9. After a successful construction of a \<open>File\<close> or a \<open>Sas\<close> object, and
  after any sequence of the object's method calls that has no \<open>remove()\<close> in it,
  \<open>create()\<close> fails with \<open>FileExistsError\<close>. \<open>create()\<close> succeeds only in a world
  where nothing exists at the path. \<open>remove()\<close> deletes the file when the platform lets
  it be unlinked, and \<open>create()\<close> after it succeeds when the directory of the path
  admits a new entry.
\<close>

theorem create_after_construction:
  assumes built: "File_init p enc w0 = (Inr self, w1) \<and> list_all file_call cs \<or>
      Sas_init p enc w0 = (Inr self, w1)"
    and norem: "CallRemove \<notin> set cs"
    and run: "run_calls self cs w1 = Some w"
  shows "File_create self w =
      (Inl FileExistsError, w\<lparr>log := log w @ [EvOpen (path self) ModeX]\<rparr>) \<and>
    (\<forall>v. fst (File_create self v) = Inr () \<longrightarrow> fs v (path self) = None) \<and>
    fst (File_remove self w) =
      (if may_unlink (platform w) (path self) then Inr () else Inl PermissionError) \<and>
    (may_unlink (platform w) (path self) \<longrightarrow>
       fs (snd (File_remove self w)) (path self) = None \<and>
       fst (File_create self (snd (File_remove self w))) =
         (case new_entry (snd (File_remove self w)) (path self) of
            None \<Rightarrow> Inr () | Some e \<Rightarrow> Inl e))"
proof -
  from built have init: "File_init p enc w0 = (Inr self, w1)"
    by (auto dest: Sas_init_success(4))
  from built have kind: "list_all file_call cs \<or> csv_path self \<noteq> path self"
    by (auto dest: Sas_init_success(3))
  have self: "self = File_attrs p enc" using init by (rule File_init_success)
  have "\<exists>wr its. fs w0 p = Some (Reg True wr its)" using init by (rule File_init_success)
  moreover have "fs w1 = fs w0" using init by (rule File_init_success)
  ultimately have "is_regular w1 (path self)"
    by (auto simp: is_regular_def self File_attrs_sel)
  then have reg: "is_regular w (path self)"
    using norem kind run by (rule run_calls_regular)
  then obtain r wr its where f: "fs w (path self) = Some (Reg r wr its)"
    by (auto simp: is_regular_def split: option.splits node.splits)
  have a: "File_create self w =
      (Inl FileExistsError, w\<lparr>log := log w @ [EvOpen (path self) ModeX]\<rparr>)"
    by (simp add: File_create_cases f)
  have b: "\<forall>v. fst (File_create self v) = Inr () \<longrightarrow> fs v (path self) = None"
    by (auto simp: File_create_cases split: option.splits)
  have c: "fst (File_remove self w) =
      (if may_unlink (platform w) (path self) then Inr () else Inl PermissionError)"
    by (simp add: File_remove_regular[OF reg])
  have d: "may_unlink (platform w) (path self) \<longrightarrow>
       fs (snd (File_remove self w)) (path self) = None \<and>
       fst (File_create self (snd (File_remove self w))) =
         (case new_entry (snd (File_remove self w)) (path self) of
            None \<Rightarrow> Inr () | Some e \<Rightarrow> Inl e)"
  proof
    assume mu: "may_unlink (platform w) (path self)"
    have n: "fs (snd (File_remove self w)) (path self) = None"
      using mu by (simp add: File_remove_regular[OF reg])
    have "fst (File_create self (snd (File_remove self w))) =
         (case new_entry (snd (File_remove self w)) (path self) of
            None \<Rightarrow> Inr () | Some e \<Rightarrow> Inl e)"
      by (simp add: File_create_cases n split: option.splits)
    with n show "fs (snd (File_remove self w)) (path self) = None \<and>
       fst (File_create self (snd (File_remove self w))) =
         (case new_entry (snd (File_remove self w)) (path self) of
            None \<Rightarrow> Inr () | Some e \<Rightarrow> Inl e)" by simp
  qed
  from a b c d show ?thesis by blast
qed

text \<open>
  C9 on a \<open>File\<close> object for \<open>n.txt\<close> that is opened for writing and created again, and
  on a \<open>Sas\<close> object for \<open>t.sas7bdat\<close> that is read, read in chunks and converted.
\<close>

theorem create_after_construction_witness:
  "(\<exists>w. run_calls (File_attrs ''n.txt'' None) [CallOpen ModeW, CallCreate]
          \<lparr>fs = [''.'' \<mapsto> Dir, ''n.txt'' \<mapsto> Reg True True [Line None CHR '','' [PyNum 1]]],
           opened = [], log = [EvOpen ''n.txt'' ModeR, EvClose ''n.txt''],
           platform = usual\<rparr> = Some w \<and>
        fst (File_create (File_attrs ''n.txt'' None) w) = Inl FileExistsError \<and>
        fst (File_remove (File_attrs ''n.txt'' None) w) = Inr () \<and>
        fst (File_create (File_attrs ''n.txt'' None)
               (snd (File_remove (File_attrs ''n.txt'' None) w))) = Inr ()) \<and>
   (\<exists>w. run_calls (File_attrs ''t.sas7bdat'' (Some ''latin1''))
          [CallRead 0, CallReadInChunks 0 1, CallToCsv, CallCreate]
          \<lparr>fs = [''.'' \<mapsto> Dir, ''t.sas7bdat'' \<mapsto> Reg True True
                  [Image \<lparr>col_names = [''a''], sas_rows = [[NumC 5]]\<rparr>]], opened = [],
           log = [EvOpen ''t.sas7bdat'' ModeR, EvClose ''t.sas7bdat''],
           platform = usual\<rparr> = Some w \<and>
        fst (File_create (File_attrs ''t.sas7bdat'' (Some ''latin1'')) w) = Inl FileExistsError)"
proof -
  define F where "F = File_attrs ''n.txt'' None"
  define F0 where "F0 = \<lparr>fs = [''.'' \<mapsto> Dir, ''n.txt'' \<mapsto> Reg True True [Line None CHR '','' [PyNum 1]]],
      opened = [], log = [], platform = usual\<rparr>"
  define F1 where "F1 = \<lparr>fs = [''.'' \<mapsto> Dir, ''n.txt'' \<mapsto> Reg True True [Line None CHR '','' [PyNum 1]]],
      opened = [], log = [EvOpen ''n.txt'' ModeR, EvClose ''n.txt''], platform = usual\<rparr>"
  have pF: "path F = ''n.txt''" by (simp add: F_def File_attrs_sel)
  have initF: "File_init ''n.txt'' None F0 = (Inr F, F1)"
    by (simp add: File_init_cases F0_def F1_def F_def)
  have callsF: "list_all file_call [CallOpen ModeW, CallCreate]" by simp
  have noremF: "CallRemove \<notin> set [CallOpen ModeW, CallCreate]" by simp
  define wf where "wf = snd (File_create F (snd (File_open F ModeW F1)))"
  have runF: "run_calls F [CallOpen ModeW, CallCreate] F1 = Some wf" by (simp add: wf_def)
  have o: "File_open F ModeW F1 =
      (Inr (Handle ''n.txt'' ModeW),
       F1\<lparr>fs := [''.'' \<mapsto> Dir, ''n.txt'' \<mapsto> Reg True True []],
          opened := [''n.txt''], log := log F1 @ [EvOpen ''n.txt'' ModeW]\<rparr>)"
    by (simp add: File_open_def builtin_open_def open_effect_def emit_def pF F1_def Let_def)
  have wf: "wf = F1\<lparr>fs := [''.'' \<mapsto> Dir, ''n.txt'' \<mapsto> Reg True True []],
          opened := [''n.txt''],
          log := log F1 @ [EvOpen ''n.txt'' ModeW, EvOpen ''n.txt'' ModeX]\<rparr>"
    by (simp add: wf_def o File_create_cases pF)
  have pw: "platform wf = usual" by (simp add: wf F1_def)
  have mu: "may_unlink (platform wf) (path F)" by (simp add: pw usual_def)
  have rm: "snd (File_remove F wf) =
      wf\<lparr>fs := (fs wf)(''n.txt'' := None), log := log wf @ [EvRemove ''n.txt'']\<rparr>"
    by (simp add: File_remove_def os_remove_def emit_def Let_def pF wf F1_def usual_def)
  have pa: "parent_of ''n.txt'' = ''.''"
    by (simp add: parent_of_def os_path_split_def rfind_def rstrip_def Let_def)
  have ne: "new_entry (snd (File_remove F wf)) (path F) = None"
    by (simp add: rm new_entry_def pF pa) (simp add: wf F1_def usual_def)
  from create_after_construction [OF disjI1 [OF conjI [OF initF callsF]] noremF runF] mu
  have 1: "fst (File_create F wf) = Inl FileExistsError"
    and 2: "fst (File_remove F wf) = Inr ()"
    and 3: "fst (File_create F (snd (File_remove F wf))) =
         (case new_entry (snd (File_remove F wf)) (path F) of
            None \<Rightarrow> Inr () | Some e \<Rightarrow> Inl e)"
    by simp_all
  from 3 have 4: "fst (File_create F (snd (File_remove F wf))) = Inr ()"
    by (simp add: ne)
  from runF 1 2 4
  have A: "\<exists>w. run_calls F [CallOpen ModeW, CallCreate] F1 = Some w \<and>
        fst (File_create F w) = Inl FileExistsError \<and>
        fst (File_remove F w) = Inr () \<and>
        fst (File_create F (snd (File_remove F w))) = Inr ()"
    by blast
  define D where "D = \<lparr>col_names = [''a''], sas_rows = [[NumC 5]]\<rparr>"
  define S where "S = File_attrs ''t.sas7bdat'' (Some ''latin1'')"
  define S0 where "S0 = \<lparr>fs = [''.'' \<mapsto> Dir, ''t.sas7bdat'' \<mapsto> Reg True True [Image D]],
      opened = [], log = [], platform = usual\<rparr>"
  define S1 where "S1 = \<lparr>fs = [''.'' \<mapsto> Dir, ''t.sas7bdat'' \<mapsto> Reg True True [Image D]],
      opened = [], log = [EvOpen ''t.sas7bdat'' ModeR, EvClose ''t.sas7bdat''],
      platform = usual\<rparr>"
  have x: "extension S = ''.sas7bdat''" and ps: "path S = ''t.sas7bdat''"
    and es: "encoding S = Some ''latin1''"
    by (simp_all add: S_def File_attrs_sel os_path_split_def os_path_splitext_def rfind_def Let_def)
  have initS: "Sas_init ''t.sas7bdat'' (Some ''latin1'') S0 = (Inr S, S1)"
    using x by (simp add: Sas_init_def File_init_cases S0_def S1_def S_def)
  have neq: "csv_path S \<noteq> path S" using initS by (rule Sas_init_success)
  have src: "fs S1 (path S) = Some (Reg True True [Image D])"
    by (simp add: S1_def ps)
  have cv: "converts (platform S1) None D []" "converts (platform S1) (encoding S) D (sas_rows D)"
    by (simp_all add: S1_def es)
  have chunks: "Sas_read_in_chunks collect S 0 (Suc 0) [] S1 =
      Some (Inr (map (frame D (encoding S) False) (chunks_of (Suc 0) (sas_rows D))), S1)"
    by (rule read_in_chunks_collect[OF src _ cv]) simp
  obtain y where csv: "Sas_to_csv S S1 = Some y"
    using Sas_to_csv_terminates[OF neq] by blast
  have runS: "run_calls S [CallRead 0, CallReadInChunks 0 1, CallToCsv, CallCreate] S1 =
      Some (snd (File_create S (snd y)))"
    by (simp add: chunks csv)
  have noremS: "CallRemove \<notin> set [CallRead 0, CallReadInChunks 0 1, CallToCsv, CallCreate]"
    by simp
  from create_after_construction [OF disjI2 [OF initS] noremS runS] runS
  have B: "\<exists>w. run_calls S [CallRead 0, CallReadInChunks 0 1, CallToCsv, CallCreate] S1 = Some w \<and>
        fst (File_create S w) = Inl FileExistsError"
    by auto
  from A B show ?thesis
    unfolding F_def F1_def S_def S1_def D_def by blast
qed

end
